theory Spec2Isabelle
  imports Main "HOL-Library.Word"
begin

section \<open>The RPMsg socket transport (net/rpmsg/rpmsg_sockif.c)\<close>

text \<open>
  A shallow embedding of the socket interface of \<^verbatim>\<open>net/rpmsg/rpmsg_sockif.c\<close>.
  The target is a 32-bit ARM core, so \<^verbatim>\<open>uint32_t\<close> and \<^verbatim>\<open>size_t\<close> are both
  32-bit words whose arithmetic wraps. The embedding is sequential: a call runs
  alone except at its blocking waits, where the frames and substrate notifications
  that arrive while it sleeps are given as a list of events. The mutexes are
  therefore not modelled, and neither are the poll slots and the connection's
  errno slot, which no field read below depends on. Calls into the RPMsg
  substrate and the kernel (endpoint creation, callback registration, TX buffer
  acquisition, transmission, semaphore waits) are answered by parameters that
  give their outcome.
\<close>

subsection \<open>Data model\<close>

type_synonym u32 = "32 word"
type_synonym byte = "8 word"

datatype errno =
    EINVAL | ENOMEM | EISCONN | ENOTCONN | ECONNRESET | EAGAIN | EINPROGRESS
  | EFBIG | EBUSY | ENOTTY | ENOPROTOOPT | ENOSYS | ETIMEDOUT | EINTR
  | RPMSG_ERR int

datatype sock_type = SOCK_STREAM | SOCK_DGRAM

record ucred =
  pid :: u32
  uid :: u32
  gid :: u32

record sockaddr_rpmsg =
  rp_family :: nat
  rp_cpu :: string
  rp_name :: string

text \<open>
  The two wire frames. \<open>SYNC size pid uid gid\<close> is
  \<^verbatim>\<open>struct rpmsg_socket_sync_s\<close>; \<open>DATA pos len payload\<close> is
  \<^verbatim>\<open>struct rpmsg_socket_data_s\<close> followed by its payload bytes, so the frame
  length the callback receives is \<open>12 + length payload\<close>. The inbound callback
  treats every frame whose command is not SYNC as a DATA frame.
\<close>

datatype frame =
    SYNC u32 u32 u32 u32
  | DATA u32 u32 "byte list"

text \<open>
  Modelled from the spec: the circular byte buffer (\<^verbatim>\<open>nuttx/mm/circbuf.h\<close>) is
  a kernel primitive whose code is not among the sources. It is a bounded FIFO of
  bytes: a capacity and the bytes stored, oldest first. Reading and skipping take
  at most the bytes present and report how many; writing stores at most the free
  space and reports how many (overflow is truncated).
\<close>

record circbuf_s =
  cb_size :: nat
  cb_bytes :: "byte list"

definition circbuf_size :: "circbuf_s \<Rightarrow> nat" where
  "circbuf_size b = cb_size b"

definition circbuf_used :: "circbuf_s \<Rightarrow> nat" where
  "circbuf_used b = length (cb_bytes b)"

definition circbuf_is_empty :: "circbuf_s \<Rightarrow> bool" where
  "circbuf_is_empty b = (cb_bytes b = [])"

definition circbuf_read :: "circbuf_s \<Rightarrow> nat \<Rightarrow> byte list \<times> circbuf_s" where
  "circbuf_read b n = (take n (cb_bytes b), b\<lparr>cb_bytes := drop n (cb_bytes b)\<rparr>)"

definition circbuf_skip :: "circbuf_s \<Rightarrow> nat \<Rightarrow> circbuf_s" where
  "circbuf_skip b n = b\<lparr>cb_bytes := drop n (cb_bytes b)\<rparr>"

definition circbuf_write :: "circbuf_s \<Rightarrow> byte list \<Rightarrow> nat \<times> circbuf_s" where
  "circbuf_write b xs =
     (let k = min (length xs) (cb_size b - length (cb_bytes b))
      in (k, b\<lparr>cb_bytes := cb_bytes b @ take k xs\<rparr>))"

definition circbuf_resize :: "circbuf_s \<Rightarrow> nat \<Rightarrow> circbuf_s" where
  "circbuf_resize b n =
     \<lparr>cb_size = n, cb_bytes = drop (length (cb_bytes b) - n) (cb_bytes b)\<rparr>"

text \<open>
  \<^verbatim>\<open>struct rpmsg_socket_conn_s\<close>. The flags of the common prologue
  \<^verbatim>\<open>sconn.s_flags\<close> are four booleans; \<open>ept_rdev\<close> is the endpoint's device
  pointer (\<open>None\<close> is NULL, \<open>Some cpu\<close> the device of that CPU); \<open>nameid\<close>
  is the suffix string held in the 13-byte array;
  the semaphores are their counts; \<open>recvdata\<close> tells whether a blocked reader
  has published its buffer (the buffer itself is passed beside the connection).
  The chain through \<^verbatim>\<open>next\<close> is kept beside the server as a list of children.
\<close>

record rpmsg_socket_conn_s =
  s_bound :: bool
  s_connected :: bool
  s_listening :: bool
  s_nonblock :: bool
  unbind :: bool
  ept_rdev :: "string option"
  rpaddr :: sockaddr_rpmsg
  nameid :: string
  crefs :: "16 word"
  sendsem :: int
  recvsem :: int
  recvdata :: bool
  recvlen :: u32
  recvbuf :: circbuf_s
  backlog :: int
  cred :: ucred
  sendsize :: u32
  sendpos :: u32
  ackpos :: u32
  recvpos :: u32
  lastpos :: u32

text \<open>
  Constants of headers that are not among the sources, taken as parameters;
  \<open>CPU_SIZE\<close> and \<open>NAME_SIZE\<close> are \<^verbatim>\<open>RPMSG_SOCKET_CPU_SIZE\<close> and
  \<^verbatim>\<open>RPMSG_SOCKET_NAME_SIZE\<close>, the sizes of the two arrays of
  \<^verbatim>\<open>struct sockaddr_rpmsg\<close>.
\<close>

record kconfig =
  AF_RPMSG :: nat
  SOL_SOCKET :: int
  SO_PEERCRED :: int
  sizeof_ucred :: nat
  sizeof_sockaddr_rpmsg :: nat
  RXBUF_SIZE :: nat
  CPU_SIZE :: nat
  NAME_SIZE :: nat

text \<open>\<^verbatim>\<open>sizeof(struct rpmsg_socket_data_s)\<close>: three packed 32-bit words.\<close>

definition sizeof_msg :: u32 where
  "sizeof_msg = 12"

subsection \<open>Private helpers\<close>

text \<open>\<^verbatim>\<open>rpmsg_socket_post\<close>: post only while the count is below one.\<close>

definition rpmsg_socket_post :: "int \<Rightarrow> int" where
  "rpmsg_socket_post semcount = (if semcount < 1 then semcount + 1 else semcount)"

text \<open>
  \<^verbatim>\<open>rpmsg_socket_alloc\<close>: a zeroed connection with an empty buffer of
  capacity 0, both semaphores at 0 and one reference.
\<close>

definition rpmsg_socket_alloc :: rpmsg_socket_conn_s where
  "rpmsg_socket_alloc =
     \<lparr>s_bound = False, s_connected = False, s_listening = False, s_nonblock = False,
      unbind = False, ept_rdev = None,
      rpaddr = \<lparr>rp_family = 0, rp_cpu = [], rp_name = []\<rparr>,
      nameid = [], crefs = 1, sendsem = 0, recvsem = 0,
      recvdata = False, recvlen = 0,
      recvbuf = \<lparr>cb_size = 0, cb_bytes = []\<rparr>,
      backlog = 0, cred = \<lparr>pid = 0, uid = 0, gid = 0\<rparr>,
      sendsize = 0, sendpos = 0, ackpos = 0, recvpos = 0, lastpos = 0\<rparr>"

text \<open>\<^verbatim>\<open>!conn->ept.rdev || conn->unbind\<close>, the test every path uses for a dead endpoint.\<close>

definition ept_gone :: "rpmsg_socket_conn_s \<Rightarrow> bool" where
  "ept_gone conn = (ept_rdev conn = None \<or> unbind conn)"

text \<open>
  \<^verbatim>\<open>rpmsg_socket_wakeup\<close>, the ack helper: returns the connection and the
  frames handed to \<^verbatim>\<open>rpmsg_send\<close>.
\<close>

definition rpmsg_socket_wakeup :: "rpmsg_socket_conn_s \<Rightarrow> rpmsg_socket_conn_s \<times> frame list" where
  "rpmsg_socket_wakeup conn =
     (if ept_gone conn then (conn, [])
      else let space = recvpos conn - lastpos conn
           in if unat space > circbuf_size (recvbuf conn) div 2
              then (conn\<lparr>lastpos := recvpos conn\<rparr>, [DATA (recvpos conn) 0 []])
              else (conn, []))"

text \<open>\<^verbatim>\<open>rpmsg_socket_get_space\<close>, in 32-bit unsigned arithmetic.\<close>

definition rpmsg_socket_get_space :: "rpmsg_socket_conn_s \<Rightarrow> u32" where
  "rpmsg_socket_get_space conn = sendsize conn - (sendpos conn - ackpos conn)"

text \<open>
  Writing \<open>n\<close> bytes at the start of a user buffer: \<^verbatim>\<open>memcpy(dst, src, n)\<close>.
\<close>

definition memcpy :: "byte list \<Rightarrow> byte list \<Rightarrow> byte list" where
  "memcpy dst src = src @ drop (length src) dst"

text \<open>
  \<^verbatim>\<open>rpmsg_socket_ept_cb\<close>, the inbound dispatch. \<open>ubuf\<close> is the memory
  \<^verbatim>\<open>conn->recvdata\<close> points to while a reader is blocked. For a frame that breaks
  the callback's assertion (payload length neither \<open>len\<close> nor \<open>len + 4\<close>) the C
  code reads past the frame; the embedding copies the bytes the frame has.
\<close>

fun rpmsg_socket_ept_cb ::
  "rpmsg_socket_conn_s \<Rightarrow> byte list \<Rightarrow> frame \<Rightarrow> rpmsg_socket_conn_s \<times> byte list" where
  "rpmsg_socket_ept_cb conn ubuf (SYNC sz p u g) =
     (conn\<lparr>sendsize := sz, cred := \<lparr>pid = p, uid = u, gid = g\<rparr>,
           s_connected := True, sendsem := rpmsg_socket_post (sendsem conn)\<rparr>, ubuf)"
| "rpmsg_socket_ept_cb conn ubuf (DATA mpos mlen payload) =
     (let c1 = conn\<lparr>ackpos := mpos\<rparr>;
          c2 = (if rpmsg_socket_get_space c1 > 0
                then c1\<lparr>sendsem := rpmsg_socket_post (sendsem c1)\<rparr> else c1)
      in if payload = [] then (c2, ubuf)
         else
           let len = length payload;
               (c3, ubuf', rest) =
                 (if recvdata c2 then
                    let rl = min (recvlen c2) mlen
                    in if len = unat mlen
                       then (c2\<lparr>recvlen := rl, recvpos := recvpos c2 + rl, recvdata := False,
                                recvsem := rpmsg_socket_post (recvsem c2)\<rparr>,
                             memcpy ubuf (take (unat rl) payload),
                             drop (unat rl) payload)
                       else (c2\<lparr>recvlen := rl, recvpos := recvpos c2 + of_nat len,
                                recvdata := False,
                                recvsem := rpmsg_socket_post (recvsem c2)\<rparr>,
                             memcpy ubuf (take (unat rl) (drop 4 payload)),
                             [])
                  else (c2, ubuf, payload))
           in if rest = [] then (c3, ubuf')
              else (c3\<lparr>recvbuf := snd (circbuf_write (recvbuf c3) rest)\<rparr>, ubuf'))"

text \<open>
  \<^verbatim>\<open>rpmsg_socket_destroy_ept\<close> (for a non-NULL connection). Destroying the
  endpoint clears its device pointer.
\<close>

definition rpmsg_socket_destroy_ept :: "rpmsg_socket_conn_s \<Rightarrow> rpmsg_socket_conn_s" where
  "rpmsg_socket_destroy_ept conn =
     (case ept_rdev conn of
        None \<Rightarrow> conn
      | Some d \<Rightarrow>
          conn\<lparr>backlog := (if backlog conn \<noteq> 0 then - 1 else backlog conn),
               ept_rdev := None,
               sendsem := rpmsg_socket_post (sendsem conn),
               recvsem := rpmsg_socket_post (recvsem conn)\<rparr>)"

text \<open>\<^verbatim>\<open>rpmsg_socket_ns_bound\<close>: the SYNC frame sent, carrying the local credentials.\<close>

definition rpmsg_socket_ns_bound :: "rpmsg_socket_conn_s \<Rightarrow> ucred \<Rightarrow> frame" where
  "rpmsg_socket_ns_bound conn me =
     SYNC (of_nat (circbuf_size (recvbuf conn))) (pid me) (uid me) (gid me)"

definition rpmsg_socket_ns_unbind :: "rpmsg_socket_conn_s \<Rightarrow> rpmsg_socket_conn_s" where
  "rpmsg_socket_ns_unbind conn =
     conn\<lparr>unbind := True,
          sendsem := rpmsg_socket_post (sendsem conn),
          recvsem := rpmsg_socket_post (recvsem conn)\<rparr>"

text \<open>
  \<^verbatim>\<open>rpmsg_socket_device_created\<close> and \<^verbatim>\<open>rpmsg_socket_device_destroy\<close>; the
  device is given by its CPU name. Creating the endpoint, whose result the code
  does not test, sets its device pointer.
\<close>

definition rpmsg_socket_device_created :: "rpmsg_socket_conn_s \<Rightarrow> string \<Rightarrow> rpmsg_socket_conn_s" where
  "rpmsg_socket_device_created conn cpu =
     (case ept_rdev conn of
        Some d \<Rightarrow> conn
      | None \<Rightarrow> if rp_cpu (rpaddr conn) = cpu then conn\<lparr>ept_rdev := Some cpu\<rparr> else conn)"

definition rpmsg_socket_device_destroy :: "rpmsg_socket_conn_s \<Rightarrow> string \<Rightarrow> rpmsg_socket_conn_s" where
  "rpmsg_socket_device_destroy conn cpu =
     (if rp_cpu (rpaddr conn) = cpu then rpmsg_socket_destroy_ept conn else conn)"

text \<open>
  \<^verbatim>\<open>rpmsg_socket_getaddr\<close>: \<open>addr\<close> is the caller's address buffer
  (\<open>None\<close> is NULL) and \<open>addrlen\<close> its length; on success the stored address
  and its size.
\<close>

definition rpmsg_socket_getaddr ::
  "kconfig \<Rightarrow> rpmsg_socket_conn_s \<Rightarrow> sockaddr_rpmsg option \<Rightarrow> nat
     \<Rightarrow> errno + (sockaddr_rpmsg \<times> nat)" where
  "rpmsg_socket_getaddr K conn addr addrlen =
     (if addr = None \<or> addrlen < sizeof_sockaddr_rpmsg K then Inl EINVAL
      else Inr (rpaddr conn, sizeof_sockaddr_rpmsg K))"

text \<open>
  \<^verbatim>\<open>rpmsg_socket_getsockopt\<close> (with \<^verbatim>\<open>CONFIG_NET_SOCKOPTS\<close>): \<open>value_len\<close>
  is \<^verbatim>\<open>*value_len\<close> on entry; on success the credentials copied to \<^verbatim>\<open>value\<close>.
\<close>

definition rpmsg_socket_getsockopt ::
  "kconfig \<Rightarrow> rpmsg_socket_conn_s \<Rightarrow> int \<Rightarrow> int \<Rightarrow> nat \<Rightarrow> errno + ucred" where
  "rpmsg_socket_getsockopt K conn level option value_len =
     (if level = SOL_SOCKET K \<and> option = SO_PEERCRED K
      then if value_len \<noteq> sizeof_ucred K then Inl EINVAL else Inr (cred conn)
      else Inl ENOPROTOOPT)"

subsection \<open>What happens while a call sleeps\<close>

text \<open>
  The substrate's callbacks that can run on a connection while a caller is blocked:
  an inbound frame, the name-service unbind, and a device appearing or vanishing.
\<close>

datatype event =
    RxFrame frame
  | NsUnbind
  | DeviceCreated string
  | DeviceDestroy string

fun apply_event :: "rpmsg_socket_conn_s \<times> byte list \<Rightarrow> event \<Rightarrow> rpmsg_socket_conn_s \<times> byte list" where
  "apply_event (conn, ubuf) (RxFrame f) = rpmsg_socket_ept_cb conn ubuf f"
| "apply_event (conn, ubuf) NsUnbind = (rpmsg_socket_ns_unbind conn, ubuf)"
| "apply_event (conn, ubuf) (DeviceCreated cpu) = (rpmsg_socket_device_created conn cpu, ubuf)"
| "apply_event (conn, ubuf) (DeviceDestroy cpu) = (rpmsg_socket_device_destroy conn cpu, ubuf)"

definition apply_events ::
  "rpmsg_socket_conn_s \<Rightarrow> byte list \<Rightarrow> event list \<Rightarrow> rpmsg_socket_conn_s \<times> byte list" where
  "apply_events conn ubuf evs = foldl apply_event (conn, ubuf) evs"

text \<open>
  One call of \<^verbatim>\<open>net_sem_timedwait\<close> or \<^verbatim>\<open>net_sem_wait\<close>: the events that ran
  meanwhile, and how the wait ended. A wait that succeeds takes the semaphore.
\<close>

datatype wait_result = Woken | TimedOut | Interrupted

datatype wait = Wait "event list" wait_result

fun wait_errno :: "wait_result \<Rightarrow> errno option" where
  "wait_errno Woken = None"
| "wait_errno TimedOut = Some ETIMEDOUT"
| "wait_errno Interrupted = Some EINTR"

definition sem_take :: "int \<Rightarrow> wait_result \<Rightarrow> int" where
  "sem_take semcount r = (if r = Woken then semcount - 1 else semcount)"

definition wait_sendsem ::
  "rpmsg_socket_conn_s \<Rightarrow> byte list \<Rightarrow> wait \<Rightarrow> rpmsg_socket_conn_s \<times> byte list \<times> errno option" where
  "wait_sendsem conn ubuf w =
     (case w of Wait evs r \<Rightarrow>
        let (c, u) = apply_events conn ubuf evs
        in (c\<lparr>sendsem := sem_take (sendsem c) r\<rparr>, u, wait_errno r))"

definition wait_recvsem ::
  "rpmsg_socket_conn_s \<Rightarrow> byte list \<Rightarrow> wait \<Rightarrow> rpmsg_socket_conn_s \<times> byte list \<times> errno option" where
  "wait_recvsem conn ubuf w =
     (case w of Wait evs r \<Rightarrow>
        let (c, u) = apply_events conn ubuf evs
        in (c\<lparr>recvsem := sem_take (recvsem c) r\<rparr>, u, wait_errno r))"

subsection \<open>bind, listen, connect\<close>

text \<open>
  What \<^verbatim>\<open>strlcpy\<close> and \<^verbatim>\<open>snprintf\<close> leave in a destination of \<open>n\<close> bytes:
  at most \<open>n - 1\<close> characters of the source, the last byte being the
  terminator.
\<close>

definition c_trunc :: "nat \<Rightarrow> string \<Rightarrow> string" where
  "c_trunc n src = take (n - 1) src"

text \<open>The conversion \<^verbatim>\<open>%x\<close>: lower-case hexadecimal digits, no leading zeros.\<close>

definition hex_digit :: "nat \<Rightarrow> char" where
  "hex_digit d = ''0123456789abcdef'' ! (d mod 16)"

fun hex_of_nat :: "nat \<Rightarrow> string" where
  "hex_of_nat n = (if n < 16 then [hex_digit n] else hex_of_nat (n div 16) @ [hex_digit n])"

declare hex_of_nat.simps [simp del]

text \<open>\<^verbatim>\<open>RPMSG_SOCKET_NAME_ID_LEN\<close>, the size of the array \<^verbatim>\<open>nameid\<close>.\<close>

definition NAME_ID_LEN :: nat where
  "NAME_ID_LEN = 13"

text \<open>
  \<^verbatim>\<open>rpmsg_socket_setaddr\<close>; \<open>g\<close> is the process-wide counter
  \<^verbatim>\<open>g_rpmsg_id\<close>, returned incremented when a suffix was printed. The suffix is
  \<^verbatim>\<open>":%" PRIx64\<close> of the counter, cut to the array.
\<close>

definition rpmsg_socket_setaddr ::
  "kconfig \<Rightarrow> rpmsg_socket_conn_s \<Rightarrow> sockaddr_rpmsg \<Rightarrow> nat \<Rightarrow> bool \<Rightarrow> 64 word
     \<Rightarrow> errno + (rpmsg_socket_conn_s \<times> 64 word)" where
  "rpmsg_socket_setaddr K conn addr addrlen suffix g =
     (if rp_family addr \<noteq> AF_RPMSG K \<or> addrlen < sizeof_sockaddr_rpmsg K then Inl EINVAL
      else if suffix
      then Inr (conn\<lparr>rpaddr := addr,
                     nameid := c_trunc NAME_ID_LEN (CHR '':'' # hex_of_nat (unat g))\<rparr>, g + 1)
      else Inr (conn\<lparr>rpaddr := addr, nameid := []\<rparr>, g))"

definition rpmsg_socket_bind ::
  "kconfig \<Rightarrow> rpmsg_socket_conn_s \<Rightarrow> sockaddr_rpmsg \<Rightarrow> nat \<Rightarrow> 64 word
     \<Rightarrow> errno + (rpmsg_socket_conn_s \<times> 64 word)" where
  "rpmsg_socket_bind K conn addr addrlen g = rpmsg_socket_setaddr K conn addr addrlen False g"

text \<open>
  \<^verbatim>\<open>rpmsg_socket_listen\<close>; \<open>reg\<close> is what \<^verbatim>\<open>rpmsg_register_callback\<close>
  returns (\<open>None\<close> for success).
\<close>

definition rpmsg_socket_listen ::
  "sock_type \<Rightarrow> rpmsg_socket_conn_s \<Rightarrow> int \<Rightarrow> errno option
     \<Rightarrow> (errno + unit) \<times> rpmsg_socket_conn_s" where
  "rpmsg_socket_listen ty server bl reg =
     (if ty \<noteq> SOCK_STREAM then (Inl ENOSYS, server)
      else if \<not> s_bound server \<or> bl \<le> 0 then (Inl EINVAL, server)
      else ((case reg of None \<Rightarrow> Inr () | Some e \<Rightarrow> Inl e), server\<lparr>backlog := bl\<rparr>))"

text \<open>
  The environment of \<^verbatim>\<open>rpmsg_socket_connect_internal\<close>: whether
  \<^verbatim>\<open>circbuf_resize\<close> got its memory, what \<^verbatim>\<open>rpmsg_register_callback\<close> returned,
  the callbacks that ran during the registration, and the wait on the send
  semaphore, if the substrate ever ends it.
\<close>

datatype conn_env = ConnEnv bool "errno option" "event list" "wait option"

definition rpmsg_socket_connect_internal ::
  "kconfig \<Rightarrow> rpmsg_socket_conn_s \<Rightarrow> conn_env \<Rightarrow> (errno + unit) option \<times> rpmsg_socket_conn_s" where
  "rpmsg_socket_connect_internal K conn env =
     (case env of ConnEnv resize_ok reg evs w \<Rightarrow>
        if \<not> resize_ok then (Some (Inl ENOMEM), conn)
        else
          let c1 = conn\<lparr>recvbuf := circbuf_resize (recvbuf conn) (RXBUF_SIZE K)\<rparr>
          in (case reg of
                Some e \<Rightarrow> (Some (Inl e), c1)
              | None \<Rightarrow>
                 (let c2 = fst (apply_events c1 [] evs)
                  in if sendsize c2 = 0 then
                       if s_nonblock c2 then (Some (Inl EINPROGRESS), c2)
                       else (case w of
                               None \<Rightarrow> (None, c2)
                             | Some wt \<Rightarrow>
                                 (let (c3, u, r) = wait_sendsem c2 [] wt
                                  in (case r of
                                        None \<Rightarrow> (Some (Inr ()), c3)
                                      | Some e \<Rightarrow> (Some (Inl e), c3))))
                     else (Some (Inr ()), c2))))"

definition rpmsg_socket_connect ::
  "kconfig \<Rightarrow> sock_type \<Rightarrow> rpmsg_socket_conn_s \<Rightarrow> sockaddr_rpmsg \<Rightarrow> nat \<Rightarrow> 64 word \<Rightarrow> conn_env
     \<Rightarrow> (errno + unit) option \<times> rpmsg_socket_conn_s \<times> 64 word" where
  "rpmsg_socket_connect K ty conn addr addrlen g env =
     (if s_connected conn then (Some (Inl EISCONN), conn, g)
      else case rpmsg_socket_setaddr K conn addr addrlen (ty = SOCK_STREAM) g of
             Inl e \<Rightarrow> (Some (Inl e), conn, g)
           | Inr (c, g') \<Rightarrow>
               (case rpmsg_socket_connect_internal K c env of (r, c') \<Rightarrow> (r, c', g')))"

subsection \<open>The accept queue: name-service bind, accept, close\<close>

text \<open>
  The environment of one \<^verbatim>\<open>rpmsg_socket_ns_bind\<close>: whether the allocation, the
  buffer resize and \<^verbatim>\<open>rpmsg_create_ept\<close> succeeded, the device's CPU name, the
  announced endpoint name, and the local credentials put into the SYNC frame.
\<close>

datatype bind_env = BindEnv bool bool bool string string ucred

text \<open>
  What became of the child: no child was built, it was rejected (the value is the
  child after \<^verbatim>\<open>rpmsg_destroy_ept\<close>, which is then freed), or it was appended.
\<close>

datatype bind_outcome = NoChild | Rejected rpmsg_socket_conn_s | Appended

text \<open>
  The walk \<^verbatim>\<open>for (tmp = server; tmp->next; tmp = tmp->next)\<close> with its test
  \<^verbatim>\<open>++cnt >= server->backlog\<close>: \<open>True\<close> when the connection is rejected. The
  list is the chain that hangs from \<^verbatim>\<open>tmp->next\<close>.
\<close>

fun ns_bind_walk :: "int \<Rightarrow> int \<Rightarrow> rpmsg_socket_conn_s list \<Rightarrow> bool" where
  "ns_bind_walk cnt bl [] = False"
| "ns_bind_walk cnt bl (c # cs) = (if cnt + 1 \<ge> bl then True else ns_bind_walk (cnt + 1) bl cs)"

definition rpmsg_socket_ns_bind ::
  "kconfig \<Rightarrow> rpmsg_socket_conn_s \<Rightarrow> rpmsg_socket_conn_s list \<Rightarrow> bind_env
     \<Rightarrow> rpmsg_socket_conn_s \<times> rpmsg_socket_conn_s list \<times> frame list \<times> bind_outcome" where
  "rpmsg_socket_ns_bind K server queue env =
     (case env of BindEnv alloc_ok resize_ok create_ok cpu name me \<Rightarrow>
        if \<not> alloc_ok then (server, queue, [], NoChild)
        else if \<not> resize_ok then (server, queue, [], NoChild)
        else if \<not> create_ok then (server, queue, [], NoChild)
        else
          let new = rpmsg_socket_alloc
                \<lparr>recvbuf := circbuf_resize (recvbuf rpmsg_socket_alloc) (RXBUF_SIZE K),
                 ept_rdev := Some cpu,
                 rpaddr := \<lparr>rp_family = AF_RPMSG K, rp_cpu = c_trunc (CPU_SIZE K) cpu,
                            rp_name = c_trunc (NAME_SIZE K) (drop 3 name)\<rparr>\<rparr>;
              sync = rpmsg_socket_ns_bound new me
          in if ns_bind_walk 0 (backlog server) queue
             then (server, queue, [sync], Rejected (new\<lparr>ept_rdev := None\<rparr>))
             else (server\<lparr>recvsem := rpmsg_socket_post (recvsem server)\<rparr>,
                   queue @ [new], [sync], Appended))"

text \<open>
  \<^verbatim>\<open>rpmsg_socket_close\<close>. The second component is \<open>None\<close> while references
  remain; otherwise the connection is freed and it names the callbacks that were
  unregistered. The connection returned is its last content before the free.
\<close>

datatype cb_set = CbDestroyOnly | CbNsMatchBind | CbCreatedDestroy

definition rpmsg_socket_close :: "rpmsg_socket_conn_s \<Rightarrow> rpmsg_socket_conn_s \<times> cb_set option" where
  "rpmsg_socket_close conn =
     (if unat (crefs conn) > 1 then (conn\<lparr>crefs := crefs conn - 1\<rparr>, None)
      else (rpmsg_socket_destroy_ept conn,
            Some (if backlog conn = - 2 then CbDestroyOnly
                  else if backlog conn \<noteq> 0 then CbNsMatchBind
                  else CbCreatedDestroy)))"

text \<open>
  What can happen to a listening socket while \<^verbatim>\<open>accept\<close> sleeps on its receive
  semaphore: a peer is bound by the name service, or another thread closes the
  socket.
\<close>

datatype srv_event = SrvNsBind bind_env | SrvClose

fun apply_srv_event ::
  "kconfig \<Rightarrow> rpmsg_socket_conn_s \<times> rpmsg_socket_conn_s list \<Rightarrow> srv_event
     \<Rightarrow> rpmsg_socket_conn_s \<times> rpmsg_socket_conn_s list" where
  "apply_srv_event K (server, queue) (SrvNsBind env) =
     (case rpmsg_socket_ns_bind K server queue env of (s, q, tx, out) \<Rightarrow> (s, q))"
| "apply_srv_event K (server, queue) SrvClose = (fst (rpmsg_socket_close server), queue)"

datatype srv_wait = SrvWait "srv_event list" wait_result

text \<open>
  The result of \<^verbatim>\<open>accept\<close>: the return value (\<open>None\<close> while the call never
  returns), the server, its queue, the connection attached to the new socket and
  the address copied out.
\<close>

type_synonym accept_result =
  "(errno + unit) option \<times> rpmsg_socket_conn_s \<times> rpmsg_socket_conn_s list
     \<times> rpmsg_socket_conn_s option \<times> (sockaddr_rpmsg \<times> nat) option"

text \<open>
  The branch of \<^verbatim>\<open>accept\<close> that found a child: tag it as accepted and, while no
  SYNC has set its send size, wait on the child's send semaphore (\<open>cw\<close>).
\<close>

definition accept_child ::
  "kconfig \<Rightarrow> rpmsg_socket_conn_s \<Rightarrow> rpmsg_socket_conn_s list \<Rightarrow> rpmsg_socket_conn_s
     \<Rightarrow> sockaddr_rpmsg option \<Rightarrow> nat \<Rightarrow> wait option \<Rightarrow> accept_result" where
  "accept_child K server queue conn addr addrlen cw =
     (let c1 = conn\<lparr>backlog := - 2\<rparr>;
          fin = (\<lambda>c. (Some (Inr ()), server, queue, Some c,
                       (case rpmsg_socket_getaddr K c addr addrlen of
                          Inl e \<Rightarrow> None | Inr a \<Rightarrow> Some a)))
      in if sendsize c1 = 0 then
           (case cw of
              None \<Rightarrow> (None, server, queue, None, None)
            | Some w \<Rightarrow> fin (fst (wait_sendsem c1 [] w)))
         else fin c1)"

fun accept_loop ::
  "kconfig \<Rightarrow> rpmsg_socket_conn_s \<Rightarrow> rpmsg_socket_conn_s list \<Rightarrow> sockaddr_rpmsg option \<Rightarrow> nat
     \<Rightarrow> wait option \<Rightarrow> srv_wait list \<Rightarrow> accept_result" where
  "accept_loop K server (c # cs) addr addrlen cw ws = accept_child K server cs c addr addrlen cw"
| "accept_loop K server [] addr addrlen cw [] =
     (if s_nonblock server then (Some (Inl EAGAIN), server, [], None, None)
      else (None, server, [], None, None))"
| "accept_loop K server [] addr addrlen cw (SrvWait evs r # ws) =
     (if s_nonblock server then (Some (Inl EAGAIN), server, [], None, None)
      else
        let (s1, q1) = foldl (apply_srv_event K) (server, []) evs;
            s2 = s1\<lparr>recvsem := sem_take (recvsem s1) r\<rparr>
        in if backlog s2 = - 1 then (Some (Inl ECONNRESET), s2, q1, None, None)
           else (case wait_errno r of
                   Some e \<Rightarrow> (Some (Inl e), s2, q1, None, None)
                 | None \<Rightarrow> accept_loop K s2 q1 addr addrlen cw ws))"

definition rpmsg_socket_accept ::
  "kconfig \<Rightarrow> rpmsg_socket_conn_s \<Rightarrow> rpmsg_socket_conn_s list \<Rightarrow> sockaddr_rpmsg option \<Rightarrow> nat
     \<Rightarrow> wait option \<Rightarrow> srv_wait list \<Rightarrow> accept_result" where
  "rpmsg_socket_accept K server queue addr addrlen cw ws =
     (if backlog server = - 1 then (Some (Inl ECONNRESET), server, queue, None, None)
      else if \<not> s_listening server then (Some (Inl EINVAL), server, queue, None, None)
      else accept_loop K server queue addr addrlen cw ws)"

subsection \<open>sendmsg\<close>

text \<open>
  \<^verbatim>\<open>struct iovec\<close>: \<open>iov_base\<close> is the memory the pointer refers to and
  \<open>iov_len\<close> the length the caller declares. \<^verbatim>\<open>struct msghdr\<close>: \<open>msg_name\<close>
  is \<open>None\<close> for a NULL pointer.
\<close>

record iovec =
  iov_base :: "byte list"
  iov_len :: u32

record msghdr =
  msg_name :: "sockaddr_rpmsg option"
  msg_namelen :: nat
  msg_iov :: "iovec list"
  msg_iovlen :: nat

text \<open>\<^verbatim>\<open>rpmsg_socket_get_iovlen\<close>: the 32-bit sum of the first \<open>iovcnt\<close> lengths.\<close>

fun rpmsg_socket_get_iovlen :: "iovec list \<Rightarrow> nat \<Rightarrow> u32" where
  "rpmsg_socket_get_iovlen buf 0 = 0"
| "rpmsg_socket_get_iovlen [] (Suc n) = 0"
| "rpmsg_socket_get_iovlen (v # vs) (Suc n) = iov_len v + rpmsg_socket_get_iovlen vs n"

text \<open>
  The user bytes the scatter list describes, in order. The copy loops of both
  send paths walk the list entry by entry; their net effect is to copy a
  segment of this sequence.
\<close>

definition iov_bytes :: "iovec list \<Rightarrow> nat \<Rightarrow> byte list" where
  "iov_bytes buf iovcnt = concat (map (\<lambda>v. take (unat (iov_len v)) (iov_base v)) (take iovcnt buf))"

text \<open>
  One acquisition of a TX payload buffer: the events that ran while
  \<^verbatim>\<open>rpmsg_get_tx_payload_buffer\<close> waited, the capacity \<^verbatim>\<open>ipcsize\<close> it reported
  (\<open>None\<close> when it returned NULL), and what \<^verbatim>\<open>rpmsg_sendto_nocopy\<close> then returned.
\<close>

datatype txacq = TxAcq "event list" "u32 option" int

text \<open>
  The section of \<^verbatim>\<open>rpmsg_socket_send_continuous\<close> that runs under the send
  lock once a TX buffer is held: the block size is recomputed from the bytes
  \<open>remaining\<close>, the send space and the TX capacity, and \<open>sendpos\<close> and
  \<open>lastpos\<close> advance. Returns the connection and the block size.
\<close>

definition send_continuous_commit ::
  "rpmsg_socket_conn_s \<Rightarrow> u32 \<Rightarrow> u32 \<Rightarrow> rpmsg_socket_conn_s \<times> u32" where
  "send_continuous_commit conn remaining ipcsize =
     (let block0 = min remaining (rpmsg_socket_get_space conn);
          block = min block0 (ipcsize - sizeof_msg)
      in (conn\<lparr>lastpos := recvpos conn, sendpos := sendpos conn + block\<rparr>, block))"

text \<open>
  How \<^verbatim>\<open>rpmsg_socket_send_continuous\<close> ends when it leaves its loop with
  \<^verbatim>\<open>ret\<close>: \<^verbatim>\<open>return written ? written : ret\<close>.
\<close>

definition send_result :: "u32 \<Rightarrow> errno + nat \<Rightarrow> errno + nat" where
  "send_result written ret = (if written \<noteq> 0 then Inr (unat written) else ret)"

fun send_continuous_loop ::
  "rpmsg_socket_conn_s \<Rightarrow> byte list \<Rightarrow> u32 \<Rightarrow> u32 \<Rightarrow> bool \<Rightarrow> wait list \<Rightarrow> txacq list \<Rightarrow> frame list
     \<Rightarrow> (errno + nat) option \<times> rpmsg_socket_conn_s \<times> frame list" where
  "send_continuous_loop conn dat len written nonblock ws txs out =
     (if \<not> written < len then (Some (send_result written (Inr 0)), conn, out)
      else if min (len - written) (rpmsg_socket_get_space conn) = 0 then
        (if nonblock then (Some (send_result written (Inl EAGAIN)), conn, out)
         else (case ws of
                 [] \<Rightarrow> (None, conn, out)
               | w # ws' \<Rightarrow>
                   (let (c1, u, r) = wait_sendsem conn [] w
                    in if ept_gone c1 then (Some (send_result written (Inl ECONNRESET)), c1, out)
                       else (case r of
                               Some e \<Rightarrow> (Some (send_result written (Inl e)), c1, out)
                             | None \<Rightarrow> send_continuous_loop c1 dat len written nonblock ws' txs out))))
      else (case txs of
              [] \<Rightarrow> (None, conn, out)
            | TxAcq evs ipc sret # txs' \<Rightarrow>
                (let c1 = fst (apply_events conn [] evs)
                 in (case ipc of
                       None \<Rightarrow> (Some (send_result written (Inl EINVAL)), c1, out)
                     | Some ipcsize \<Rightarrow>
                         (let (c2, block) = send_continuous_commit c1 (len - written) ipcsize;
                              msg = DATA (recvpos c1) block
                                      (take (unat block) (drop (unat written) dat))
                          in if sret < 0 then (Some (send_result written (Inl (RPMSG_ERR sret))), c2, out)
                             else send_continuous_loop c2 dat len (written + block) nonblock
                                    ws txs' (out @ [msg]))))))"

definition rpmsg_socket_send_continuous ::
  "rpmsg_socket_conn_s \<Rightarrow> iovec list \<Rightarrow> nat \<Rightarrow> bool \<Rightarrow> wait list \<Rightarrow> txacq list
     \<Rightarrow> (errno + nat) option \<times> rpmsg_socket_conn_s \<times> frame list" where
  "rpmsg_socket_send_continuous conn buf iovcnt nonblock ws txs =
     send_continuous_loop conn (iov_bytes buf iovcnt) (rpmsg_socket_get_iovlen buf iovcnt) 0
       nonblock ws txs []"

text \<open>Four bytes of a 32-bit word, least significant first, and back.\<close>

definition le32_bytes :: "u32 \<Rightarrow> byte list" where
  "le32_bytes w = [ucast w, ucast (drop_bit 8 w), ucast (drop_bit 16 w), ucast (drop_bit 24 w)]"

definition le32 :: "byte list \<Rightarrow> u32" where
  "le32 bs = foldr (\<lambda>b w. push_bit 8 w + ucast b) (take 4 bs) 0"

text \<open>
  The section of \<^verbatim>\<open>rpmsg_socket_send_single\<close> under the send lock: the frame
  length \<open>tot\<close> (the C variable \<^verbatim>\<open>total\<close>) is clamped to the send space plus the header and to the TX
  capacity, the datagram length is what remains after header and prefix, and
  \<open>sendpos\<close> advances by the datagram length plus the prefix. Returns the
  connection, the clamped length and the datagram length.
\<close>

definition send_single_total :: "rpmsg_socket_conn_s \<Rightarrow> u32 \<Rightarrow> u32 \<Rightarrow> u32" where
  "send_single_total conn tot ipcsize =
     min (min tot (rpmsg_socket_get_space conn + sizeof_msg)) ipcsize"

definition send_single_commit ::
  "rpmsg_socket_conn_s \<Rightarrow> u32 \<Rightarrow> u32 \<Rightarrow> rpmsg_socket_conn_s \<times> u32 \<times> u32" where
  "send_single_commit conn tot ipcsize =
     (let tot' = send_single_total conn tot ipcsize;
          len = tot' - sizeof_msg - 4
      in (conn\<lparr>lastpos := recvpos conn, sendpos := sendpos conn + (len + 4)\<rparr>, tot', len))"

text \<open>
  The wait loop of \<^verbatim>\<open>rpmsg_socket_send_single\<close>: \<open>Inr\<close> once the send space
  is at least \<^verbatim>\<open>total - sizeof(*msg)\<close>, \<open>Inl\<close> with the value returned otherwise.
\<close>

fun send_single_wait ::
  "rpmsg_socket_conn_s \<Rightarrow> u32 \<Rightarrow> bool \<Rightarrow> wait list
     \<Rightarrow> (errno option \<times> rpmsg_socket_conn_s) + rpmsg_socket_conn_s" where
  "send_single_wait conn tot nonblock ws =
     (if rpmsg_socket_get_space conn \<ge> tot - sizeof_msg then Inr conn
      else if nonblock then Inl (Some EAGAIN, conn)
      else (case ws of
              [] \<Rightarrow> Inl (None, conn)
            | w # ws' \<Rightarrow>
                (let (c1, u, r) = wait_sendsem conn [] w
                 in if ept_gone c1 then Inl (Some ECONNRESET, c1)
                    else (case r of
                            Some e \<Rightarrow> Inl (Some e, c1)
                          | None \<Rightarrow> send_single_wait c1 tot nonblock ws'))))"

definition rpmsg_socket_send_single ::
  "rpmsg_socket_conn_s \<Rightarrow> iovec list \<Rightarrow> nat \<Rightarrow> bool \<Rightarrow> wait list \<Rightarrow> txacq option
     \<Rightarrow> (errno + nat) option \<times> rpmsg_socket_conn_s \<times> frame list" where
  "rpmsg_socket_send_single conn buf iovcnt nonblock ws tx =
     (let len = rpmsg_socket_get_iovlen buf iovcnt;
          tot = len + sizeof_msg + 4
      in if tot > sendsize conn then (Some (Inl EFBIG), conn, [])
         else (case send_single_wait conn tot nonblock ws of
                 Inl (None, c) \<Rightarrow> (None, c, [])
               | Inl (Some e, c) \<Rightarrow> (Some (Inl e), c, [])
               | Inr c \<Rightarrow>
                   (case tx of
                      None \<Rightarrow> (None, c, [])
                    | Some (TxAcq evs ipc sret) \<Rightarrow>
                        (let c1 = fst (apply_events c [] evs)
                         in (case ipc of
                               None \<Rightarrow> (Some (Inl EINVAL), c1, [])
                             | Some ipcsize \<Rightarrow>
                                 (let (c2, tot', len') = send_single_commit c1 tot ipcsize;
                                      msg = DATA (recvpos c1) len'
                                              (le32_bytes len' @
                                               take (unat len') (iov_bytes buf iovcnt))
                                  in if sret > 0 then (Some (Inr (unat len')), c2, [msg])
                                     else if sret < 0 then (Some (Inl (RPMSG_ERR sret)), c2, [])
                                     else (Some (Inr 0), c2, [msg])))))))"

text \<open>
  \<^verbatim>\<open>rpmsg_socket_sendmsg\<close>. \<open>dontwait\<close> is \<^verbatim>\<open>flags & MSG_DONTWAIT\<close>; \<open>cenv\<close>
  serves the implicit connect; \<open>ws\<close> the waits for send space; \<open>txs\<close> the TX
  buffer acquisitions (the datagram path uses the first).
\<close>

definition send_dispatch ::
  "sock_type \<Rightarrow> rpmsg_socket_conn_s \<Rightarrow> msghdr \<Rightarrow> bool \<Rightarrow> wait list \<Rightarrow> txacq list
     \<Rightarrow> (errno + nat) option \<times> rpmsg_socket_conn_s \<times> frame list" where
  "send_dispatch ty conn msg dontwait ws txs =
     (if ept_gone conn then (Some (Inl ECONNRESET), conn, [])
      else
        let nonblock = (s_nonblock conn \<or> dontwait)
        in if ty = SOCK_STREAM
           then rpmsg_socket_send_continuous conn (msg_iov msg) (msg_iovlen msg) nonblock ws txs
           else rpmsg_socket_send_single conn (msg_iov msg) (msg_iovlen msg) nonblock ws
                  (case txs of [] \<Rightarrow> None | t # ts \<Rightarrow> Some t))"

definition rpmsg_socket_sendmsg ::
  "kconfig \<Rightarrow> sock_type \<Rightarrow> rpmsg_socket_conn_s \<Rightarrow> msghdr \<Rightarrow> bool \<Rightarrow> 64 word \<Rightarrow> conn_env
     \<Rightarrow> wait list \<Rightarrow> txacq list
     \<Rightarrow> (errno + nat) option \<times> rpmsg_socket_conn_s \<times> frame list \<times> 64 word" where
  "rpmsg_socket_sendmsg K ty conn msg dontwait g cenv ws txs =
     (if \<not> s_connected conn then
        (case msg_name msg of
           None \<Rightarrow> (Some (Inl ENOTCONN), conn, [], g)
         | Some to \<Rightarrow>
             (case rpmsg_socket_connect K ty conn to (msg_namelen msg) g cenv of
                (None, c, g') \<Rightarrow> (None, c, [], g')
              | (Some (Inl e), c, g') \<Rightarrow> (Some (Inl e), c, [], g')
              | (Some (Inr u), c, g') \<Rightarrow>
                  (case send_dispatch ty c msg dontwait ws txs of (r, c', tx) \<Rightarrow> (r, c', tx, g'))))
      else (case send_dispatch ty conn msg dontwait ws txs of (r, c', tx) \<Rightarrow> (r, c', tx, g)))"

subsection \<open>recvmsg\<close>

text \<open>
  Reading the local \<^verbatim>\<open>uint32_t datalen\<close> through \<^verbatim>\<open>circbuf_read\<close>: the bytes
  read overwrite the low bytes of the variable, whose content before (\<open>junk\<close>)
  is whatever the stack held.
\<close>

definition read_u32 :: "u32 \<Rightarrow> byte list \<Rightarrow> u32" where
  "read_u32 junk bs = le32 (bs @ drop (length bs) (le32_bytes junk))"

text \<open>
  The part of \<^verbatim>\<open>rpmsg_socket_recvmsg\<close> that reads the circular buffer under
  the receive lock. \<open>ubuf\<close> and \<open>len\<close> are \<^verbatim>\<open>msg_iov[0]\<close>. Returns
  \<^verbatim>\<open>ret\<close>, the connection and the user buffer.
\<close>

definition recv_buffered ::
  "sock_type \<Rightarrow> rpmsg_socket_conn_s \<Rightarrow> byte list \<Rightarrow> u32 \<Rightarrow> u32
     \<Rightarrow> nat \<times> rpmsg_socket_conn_s \<times> byte list" where
  "recv_buffered ty conn ubuf len junk =
     (if ty \<noteq> SOCK_STREAM then
        (let (hdr, b1) = circbuf_read (recvbuf conn) 4
         in if length hdr > 0 then
              (let datalen = read_u32 junk hdr;
                   (bytes, b2) = circbuf_read b1 (unat (min datalen len));
                   ret = length bytes;
                   b3 = (if ret > 0 \<and> unat datalen > ret
                         then circbuf_skip b2 (unat datalen - ret) else b2)
               in (ret, conn\<lparr>recvbuf := b3, recvpos := recvpos conn + (datalen + 4)\<rparr>,
                   memcpy ubuf bytes))
            else (0, conn\<lparr>recvbuf := b1\<rparr>, ubuf))
      else
        (let (bytes, b1) = circbuf_read (recvbuf conn) (unat len)
         in (length bytes,
             conn\<lparr>recvbuf := b1, recvpos := recvpos conn + of_nat (length bytes)\<rparr>,
             memcpy ubuf bytes)))"

text \<open>
  The result of \<^verbatim>\<open>recvmsg\<close>: the return value (\<open>None\<close> while the call never
  returns), the connection, the message header with the user buffer and the
  source address filled in, and the frames sent.
\<close>

type_synonym recv_result =
  "(errno + nat) option \<times> rpmsg_socket_conn_s \<times> msghdr \<times> frame list"

text \<open>
  The label \<^verbatim>\<open>out:\<close>: when \<^verbatim>\<open>ret > 0\<close> the ack helper runs and the peer
  address is copied to \<^verbatim>\<open>msg_name\<close>. \<open>iv\<close> is \<^verbatim>\<open>msg_iov[0]\<close>, \<open>ivs\<close> the
  entries after it, \<open>ubuf\<close> the memory of the first entry now.
\<close>

definition recv_out ::
  "kconfig \<Rightarrow> rpmsg_socket_conn_s \<Rightarrow> msghdr \<Rightarrow> iovec \<Rightarrow> iovec list \<Rightarrow> byte list \<Rightarrow> errno + nat
     \<Rightarrow> recv_result" where
  "recv_out K conn msg iv ivs ubuf ret =
     (let msg1 = msg\<lparr>msg_iov := iv\<lparr>iov_base := ubuf\<rparr> # ivs\<rparr>
      in case ret of
           Inl e \<Rightarrow> (Some ret, conn, msg1, [])
         | Inr n \<Rightarrow>
             if n > 0 then
               (let (c, tx) = rpmsg_socket_wakeup conn
                in case rpmsg_socket_getaddr K c (msg_name msg) (msg_namelen msg) of
                     Inl e \<Rightarrow> (Some ret, c, msg1, tx)
                   | Inr (a, l) \<Rightarrow> (Some ret, c, msg1\<lparr>msg_name := Some a, msg_namelen := l\<rparr>, tx))
             else (Some ret, conn, msg1, []))"

text \<open>
  The blocking tail of \<^verbatim>\<open>recvmsg\<close>: publish the user buffer, reset the receive
  semaphore and wait (\<open>w\<close> is the wait, if it ever ends).
\<close>

definition recv_blocking ::
  "kconfig \<Rightarrow> rpmsg_socket_conn_s \<Rightarrow> msghdr \<Rightarrow> iovec \<Rightarrow> iovec list \<Rightarrow> byte list \<Rightarrow> u32
     \<Rightarrow> wait option \<Rightarrow> recv_result" where
  "recv_blocking K conn msg iv ivs ubuf len w =
     (let c2 = conn\<lparr>recvdata := True, recvlen := len, recvsem := 0\<rparr>
      in case w of
           None \<Rightarrow> (None, c2, msg\<lparr>msg_iov := iv\<lparr>iov_base := ubuf\<rparr> # ivs\<rparr>, [])
         | Some wt \<Rightarrow>
             (let (c3, ubuf', r) = wait_recvsem c2 ubuf wt;
                  ret = (if ept_gone c3 then Inl ECONNRESET
                         else (case r of None \<Rightarrow> Inr 0 | Some e \<Rightarrow> Inl e))
              in if \<not> recvdata c3
                 then recv_out K c3 msg iv ivs ubuf' (Inr (unat (recvlen c3)))
                 else recv_out K (c3\<lparr>recvdata := False\<rparr>) msg iv ivs ubuf' ret))"

text \<open>
  \<^verbatim>\<open>rpmsg_socket_recvmsg\<close>. \<open>dontwait\<close> is \<^verbatim>\<open>flags & MSG_DONTWAIT\<close>; \<open>cenv\<close>
  serves the implicit connect of a bound datagram socket. The socket layer hands
  over a header with at least one iovec; nothing is modelled without one.
\<close>

definition rpmsg_socket_recvmsg ::
  "kconfig \<Rightarrow> sock_type \<Rightarrow> rpmsg_socket_conn_s \<Rightarrow> msghdr \<Rightarrow> bool \<Rightarrow> conn_env \<Rightarrow> u32
     \<Rightarrow> wait option \<Rightarrow> recv_result" where
  "rpmsg_socket_recvmsg K ty conn msg dontwait cenv junk w =
     (case msg_iov msg of
        [] \<Rightarrow> (None, conn, msg, [])
      | iv # ivs \<Rightarrow>
          (let buf = iov_base iv; len = iov_len iv;
               (r0, c) = (if ty \<noteq> SOCK_STREAM \<and> s_bound conn \<and> \<not> s_connected conn
                          then rpmsg_socket_connect_internal K conn cenv
                          else (Some (Inr ()), conn))
           in case r0 of
                None \<Rightarrow> (None, c, msg, [])
              | Some (Inl e) \<Rightarrow> (Some (Inl e), c, msg, [])
              | Some (Inr u) \<Rightarrow>
                  if \<not> s_connected c then (Some (Inl EISCONN), c, msg, [])
                  else
                    (let (ret, c1, ubuf) = recv_buffered ty c buf len junk
                     in if ret > 0 then recv_out K c1 msg iv ivs ubuf (Inr ret)
                        else if ept_gone c1 then recv_out K c1 msg iv ivs ubuf (Inr 0)
                        else if s_nonblock c1 \<or> dontwait
                        then recv_out K c1 msg iv ivs ubuf (Inl EAGAIN)
                        else recv_blocking K c1 msg iv ivs ubuf len w)))"

subsection \<open>The send window and the peer\<close>

text \<open>
  The invariant of the send window: the bytes in flight, \<open>sendpos - ackpos\<close> in
  32-bit arithmetic, fit the window \<open>sendsize\<close>.
\<close>

definition send_inv :: "rpmsg_socket_conn_s \<Rightarrow> bool" where
  "send_inv c = (unat (sendpos c - ackpos c) \<le> unat (sendsize c))"

text \<open>
  The inbound events of a peer that continues this connection's counters: a
  SYNC whose window holds the bytes in flight (so every SYNC that arrives while
  nothing is in flight, the first one included), and a DATA frame whose \<open>pos\<close>
  acknowledges bytes in flight, that is, lies between \<open>ackpos\<close> and \<open>sendpos\<close>.
  The other events carry no counter.
\<close>

fun admissible :: "rpmsg_socket_conn_s \<Rightarrow> event \<Rightarrow> bool" where
  "admissible c (RxFrame (SYNC sz p u g)) = (unat (sendpos c - ackpos c) \<le> unat sz)"
| "admissible c (RxFrame (DATA mpos mlen payload)) =
     (unat (mpos - ackpos c) \<le> unat (sendpos c - ackpos c))"
| "admissible c NsUnbind = True"
| "admissible c (DeviceCreated cpu) = True"
| "admissible c (DeviceDestroy cpu) = True"

text \<open>Every event of a list is admissible in the state in which it runs.\<close>

fun events_ok :: "rpmsg_socket_conn_s \<times> byte list \<Rightarrow> event list \<Rightarrow> bool" where
  "events_ok s [] = True"
| "events_ok s (e # es) = (admissible (fst s) e \<and> events_ok (apply_event s e) es)"

definition wait_ok :: "rpmsg_socket_conn_s \<Rightarrow> wait \<Rightarrow> bool" where
  "wait_ok conn w = (case w of Wait evs r \<Rightarrow> events_ok (conn, []) evs)"

text \<open>
  The environment of a call of sendmsg is in order when every event it delivers
  is admissible in the state in which the call applies it, and when the
  datagram path clamps its frame to a length that holds the DATA header. The
  predicates below walk the environment the way the functions they are named
  after do.
\<close>

definition connect_env_ok :: "kconfig \<Rightarrow> rpmsg_socket_conn_s \<Rightarrow> conn_env \<Rightarrow> bool" where
  "connect_env_ok K conn env =
     (case env of ConnEnv resize_ok reg evs w \<Rightarrow>
        let c1 = conn\<lparr>recvbuf := circbuf_resize (recvbuf conn) (RXBUF_SIZE K)\<rparr>
        in events_ok (c1, []) evs
           \<and> (case w of None \<Rightarrow> True | Some wt \<Rightarrow> wait_ok (fst (apply_events c1 [] evs)) wt))"

fun send_continuous_env_ok ::
  "rpmsg_socket_conn_s \<Rightarrow> u32 \<Rightarrow> u32 \<Rightarrow> bool \<Rightarrow> wait list \<Rightarrow> txacq list \<Rightarrow> bool" where
  "send_continuous_env_ok conn len written nonblock ws txs =
     (if \<not> written < len then True
      else if min (len - written) (rpmsg_socket_get_space conn) = 0 then
        (if nonblock then True
         else (case ws of
                 [] \<Rightarrow> True
               | w # ws' \<Rightarrow>
                   wait_ok conn w
                   \<and> (let (c1, u, r) = wait_sendsem conn [] w
                      in if ept_gone c1 then True
                         else (case r of
                                 Some e \<Rightarrow> True
                               | None \<Rightarrow> send_continuous_env_ok c1 len written nonblock ws' txs))))
      else (case txs of
              [] \<Rightarrow> True
            | TxAcq evs ipc sret # txs' \<Rightarrow>
                events_ok (conn, []) evs
                \<and> (let c1 = fst (apply_events conn [] evs)
                   in (case ipc of
                         None \<Rightarrow> True
                       | Some ipcsize \<Rightarrow>
                           (let (c2, block) = send_continuous_commit c1 (len - written) ipcsize
                            in if sret < 0 then True
                               else send_continuous_env_ok c2 len (written + block) nonblock
                                      ws txs')))))"

fun send_single_wait_ok :: "rpmsg_socket_conn_s \<Rightarrow> u32 \<Rightarrow> bool \<Rightarrow> wait list \<Rightarrow> bool" where
  "send_single_wait_ok conn tot nonblock ws =
     (if rpmsg_socket_get_space conn \<ge> tot - sizeof_msg then True
      else if nonblock then True
      else (case ws of
              [] \<Rightarrow> True
            | w # ws' \<Rightarrow>
                wait_ok conn w
                \<and> (let (c1, u, r) = wait_sendsem conn [] w
                   in if ept_gone c1 then True
                      else (case r of
                              Some e \<Rightarrow> True
                            | None \<Rightarrow> send_single_wait_ok c1 tot nonblock ws'))))"

definition send_single_env_ok ::
  "rpmsg_socket_conn_s \<Rightarrow> iovec list \<Rightarrow> nat \<Rightarrow> bool \<Rightarrow> wait list \<Rightarrow> txacq option \<Rightarrow> bool" where
  "send_single_env_ok conn buf iovcnt nonblock ws tx =
     (let tot = rpmsg_socket_get_iovlen buf iovcnt + sizeof_msg + 4
      in if tot > sendsize conn then True
         else send_single_wait_ok conn tot nonblock ws
              \<and> (case send_single_wait conn tot nonblock ws of
                    Inl x \<Rightarrow> True
                  | Inr c \<Rightarrow>
                      (case tx of
                         None \<Rightarrow> True
                       | Some (TxAcq evs ipc sret) \<Rightarrow>
                           events_ok (c, []) evs
                           \<and> (case ipc of
                                 None \<Rightarrow> True
                               | Some ipcsize \<Rightarrow>
                                   sizeof_msg
                                     \<le> send_single_total (fst (apply_events c [] evs)) tot ipcsize))))"

definition send_dispatch_env_ok ::
  "sock_type \<Rightarrow> rpmsg_socket_conn_s \<Rightarrow> msghdr \<Rightarrow> bool \<Rightarrow> wait list \<Rightarrow> txacq list \<Rightarrow> bool" where
  "send_dispatch_env_ok ty conn msg dontwait ws txs =
     (if ept_gone conn then True
      else
        let nonblock = (s_nonblock conn \<or> dontwait)
        in if ty = SOCK_STREAM
           then send_continuous_env_ok conn (rpmsg_socket_get_iovlen (msg_iov msg) (msg_iovlen msg)) 0
                  nonblock ws txs
           else send_single_env_ok conn (msg_iov msg) (msg_iovlen msg) nonblock ws
                  (case txs of [] \<Rightarrow> None | t # ts \<Rightarrow> Some t))"

definition sendmsg_env_ok ::
  "kconfig \<Rightarrow> sock_type \<Rightarrow> rpmsg_socket_conn_s \<Rightarrow> msghdr \<Rightarrow> bool \<Rightarrow> 64 word \<Rightarrow> conn_env
     \<Rightarrow> wait list \<Rightarrow> txacq list \<Rightarrow> bool" where
  "sendmsg_env_ok K ty conn msg dontwait g cenv ws txs =
     (if \<not> s_connected conn then
        (case msg_name msg of
           None \<Rightarrow> True
         | Some to \<Rightarrow>
             (case rpmsg_socket_setaddr K conn to (msg_namelen msg) (ty = SOCK_STREAM) g of
                Inl e \<Rightarrow> True
              | Inr (c, g') \<Rightarrow>
                  connect_env_ok K c cenv
                  \<and> (case rpmsg_socket_connect_internal K c cenv of
                        (None, c') \<Rightarrow> True
                      | (Some (Inl e), c') \<Rightarrow> True
                      | (Some (Inr u), c') \<Rightarrow> send_dispatch_env_ok ty c' msg dontwait ws txs)))
      else send_dispatch_env_ok ty conn msg dontwait ws txs)"

text \<open>The connection with which the wait loop of the datagram path ends.\<close>

definition wait_end ::
  "(errno option \<times> rpmsg_socket_conn_s) + rpmsg_socket_conn_s \<Rightarrow> rpmsg_socket_conn_s" where
  "wait_end x = (case x of Inl (e, c) \<Rightarrow> c | Inr c \<Rightarrow> c)"

text \<open>
  The shapes a result of recvmsg can take for a header whose first iovec is
  \<open>iv\<close>: an early return that leaves the header alone; a call that stays
  blocked with the first buffer published; or the label \<^verbatim>\<open>out:\<close>, reached with
  \<open>lastpos\<close> as the call found it, with a first buffer that differs from the
  caller's in its first \<open>iov_len\<close> bytes at most, and with a byte count of at
  most \<open>iov_len\<close>.
\<close>

definition recv_traced ::
  "kconfig \<Rightarrow> rpmsg_socket_conn_s \<Rightarrow> msghdr \<Rightarrow> iovec \<Rightarrow> iovec list \<Rightarrow> recv_result \<Rightarrow> bool" where
  "recv_traced K conn msg iv ivs res =
     ((\<exists>c. res = (None, c, msg, []))
      \<or> (\<exists>e c. res = (Some (Inl e), c, msg, []))
      \<or> (\<exists>c b. res = (None, c, msg\<lparr>msg_iov := iv\<lparr>iov_base := b\<rparr> # ivs\<rparr>, [])
              \<and> drop (unat (iov_len iv)) b = drop (unat (iov_len iv)) (iov_base iv))
      \<or> (\<exists>cpre b ret. res = recv_out K cpre msg iv ivs b ret
              \<and> lastpos cpre = lastpos conn
              \<and> drop (unat (iov_len iv)) b = drop (unat (iov_len iv)) (iov_base iv)
              \<and> (case ret of Inl e \<Rightarrow> True | Inr n \<Rightarrow> n \<le> unat (iov_len iv))))"


text \<open>
  The same result for a header whose later iovecs and \<^verbatim>\<open>msg_iovlen\<close> differ.
\<close>

definition retarget :: "iovec list \<Rightarrow> nat \<Rightarrow> recv_result \<Rightarrow> recv_result" where
  "retarget ivs2 k res =
     (case res of (r, c, m, tx) \<Rightarrow> (r, c, m\<lparr>msg_iov := take 1 (msg_iov m) @ ivs2, msg_iovlen := k\<rparr>, tx))"

text \<open>The total iovec length as a number, with no wrap-around.\<close>

definition iov_total :: "iovec list \<Rightarrow> nat \<Rightarrow> nat" where
  "iov_total buf iovcnt = sum_list (map (\<lambda>v. unat (iov_len v)) (take iovcnt buf))"

text \<open>An environment in which every step of the name-service bind succeeds.\<close>

definition bind_ok :: "bind_env \<Rightarrow> bool" where
  "bind_ok env = (case env of BindEnv alloc_ok resize_ok create_ok cpu name me \<Rightarrow>
                    alloc_ok \<and> resize_ok \<and> create_ok)"

subsection \<open>Concrete inputs\<close>

definition K0 :: kconfig where
  "K0 = \<lparr>AF_RPMSG = 1, SOL_SOCKET = 1, SO_PEERCRED = 17, sizeof_ucred = 12,
         sizeof_sockaddr_rpmsg = 1, RXBUF_SIZE = 1024, CPU_SIZE = 16, NAME_SIZE = 32\<rparr>"

text \<open>A header with one iovec of eight bytes and no address buffer.\<close>

definition msg0 :: msghdr where
  "msg0 = \<lparr>msg_name = None, msg_namelen = 0,
           msg_iov = [\<lparr>iov_base = [0, 0, 0, 0, 0, 0, 0, 0], iov_len = 8\<rparr>], msg_iovlen = 1\<rparr>"

definition cenv0 :: conn_env where
  "cenv0 = ConnEnv True None [] None"

text \<open>
  A connected connection whose endpoint exists and whose peer has then gone:
  SYNC was received, then the name-service unbind.
\<close>

definition conn_eof :: rpmsg_socket_conn_s where
  "conn_eof = rpmsg_socket_ns_unbind
     (fst (rpmsg_socket_ept_cb (rpmsg_socket_alloc\<lparr>ept_rdev := Some ''remote''\<rparr>) []
             (SYNC 1024 1 2 3)))"

text \<open>
  A stream connection with a live endpoint and a receive buffer of capacity 8
  that holds six bytes, and the same connection after the peer has gone.
\<close>

definition conn_rx :: rpmsg_socket_conn_s where
  "conn_rx = fst (rpmsg_socket_ept_cb
               (fst (rpmsg_socket_ept_cb
                 (rpmsg_socket_alloc\<lparr>ept_rdev := Some ''remote'',
                                      recvbuf := \<lparr>cb_size = 8, cb_bytes = []\<rparr>\<rparr>) []
                 (SYNC 1024 1 2 3)))
               [] (DATA 0 6 [1, 2, 3, 4, 5, 6]))"

definition conn_rx_dead :: rpmsg_socket_conn_s where
  "conn_rx_dead = rpmsg_socket_ns_unbind conn_rx"

text \<open>A header with two iovecs, the first of six bytes in a buffer of eight.\<close>

definition msg2 :: msghdr where
  "msg2 = \<lparr>msg_name = None, msg_namelen = 0,
           msg_iov = [\<lparr>iov_base = [0, 0, 0, 0, 0, 0, 0, 0], iov_len = 6\<rparr>,
                      \<lparr>iov_base = [9, 9, 9, 9], iov_len = 4\<rparr>], msg_iovlen = 2\<rparr>"

text \<open>
  A non-blocking datagram connection whose buffer holds one datagram of five
  bytes behind its length prefix, and headers that read it with a buffer of
  length zero and of length three.
\<close>

definition conn_dg :: rpmsg_socket_conn_s where
  "conn_dg = fst (rpmsg_socket_ept_cb
               (fst (rpmsg_socket_ept_cb
                 (rpmsg_socket_alloc\<lparr>ept_rdev := Some ''remote'', s_nonblock := True,
                                      recvbuf := \<lparr>cb_size = 64, cb_bytes = []\<rparr>\<rparr>) []
                 (SYNC 1024 1 2 3)))
               [] (DATA 0 5 [5, 0, 0, 0, 104, 101, 108, 108, 111]))"

definition msg_zero :: msghdr where
  "msg_zero = \<lparr>msg_name = None, msg_namelen = 0,
           msg_iov = [\<lparr>iov_base = [], iov_len = 0\<rparr>], msg_iovlen = 1\<rparr>"

definition msg_three :: msghdr where
  "msg_three = \<lparr>msg_name = None, msg_namelen = 0,
           msg_iov = [\<lparr>iov_base = [0, 0, 0], iov_len = 3\<rparr>], msg_iovlen = 1\<rparr>"

text \<open>A header that offers 8192 bytes to send.\<close>

definition msg_big :: msghdr where
  "msg_big = \<lparr>msg_name = None, msg_namelen = 0,
           msg_iov = [\<lparr>iov_base = [], iov_len = 8192\<rparr>], msg_iovlen = 1\<rparr>"

text \<open>
  A listening socket as socket, bind and listen leave it: bound, backlog set by
  listen, flagged as listening by the socket layer, and no endpoint of its own.
\<close>

definition srv :: "int \<Rightarrow> rpmsg_socket_conn_s" where
  "srv bl = (snd (rpmsg_socket_listen SOCK_STREAM (rpmsg_socket_alloc\<lparr>s_bound := True\<rparr>) bl None))
              \<lparr>s_listening := True\<rparr>"

text \<open>
  A name-service bind in which every step succeeds, and the child it builds.
\<close>

definition benv0 :: bind_env where
  "benv0 = BindEnv True True True ''remote'' ''sk:svc:0'' \<lparr>pid = 1, uid = 2, gid = 3\<rparr>"

definition child0 :: rpmsg_socket_conn_s where
  "child0 = rpmsg_socket_alloc
     \<lparr>recvbuf := \<lparr>cb_size = 1024, cb_bytes = []\<rparr>, ept_rdev := Some ''remote'',
      rpaddr := \<lparr>rp_family = 1, rp_cpu = ''remote'', rp_name = ''svc:0''\<rparr>\<rparr>"

text \<open>
  A run that loses its peer and finds a fresh one. A stream socket sends eight
  bytes to an address: the implicit connect creates the endpoint and is woken
  by a SYNC with a window of 8, and the eight bytes go out (\<open>conn_a\<close>). The
  peer acknowledges them, the device vanishes and comes back, and a fresh peer
  sends its SYNC (\<open>conn_b\<close>). Eight more bytes go out (\<open>conn_c\<close>), and the
  fresh peer, having read five of them, sends its \<open>recvpos = 5\<close> (\<open>conn_d\<close>).
\<close>

definition addr_remote :: sockaddr_rpmsg where
  "addr_remote = \<lparr>rp_family = 1, rp_cpu = ''remote'', rp_name = ''svc''\<rparr>"

definition msg8 :: msghdr where
  "msg8 = \<lparr>msg_name = Some addr_remote, msg_namelen = 1,
           msg_iov = [\<lparr>iov_base = [1, 2, 3, 4, 5, 6, 7, 8], iov_len = 8\<rparr>], msg_iovlen = 1\<rparr>"

definition cenv_sync :: conn_env where
  "cenv_sync = ConnEnv True None [DeviceCreated ''remote'']
                 (Some (Wait [RxFrame (SYNC 8 1 2 3)] Woken))"

definition conn_a :: rpmsg_socket_conn_s where
  "conn_a = fst (snd (rpmsg_socket_sendmsg K0 SOCK_STREAM rpmsg_socket_alloc msg8 False 0
                        cenv_sync [] [TxAcq [] (Some 496) 20]))"

definition conn_b :: rpmsg_socket_conn_s where
  "conn_b = fst (apply_events conn_a []
                   [RxFrame (DATA 8 0 []), DeviceDestroy ''remote'', DeviceCreated ''remote'',
                    RxFrame (SYNC 8 4 5 6)])"

definition conn_c :: rpmsg_socket_conn_s where
  "conn_c = fst (snd (rpmsg_socket_sendmsg K0 SOCK_STREAM conn_b msg8 False 1
                        cenv0 [] [TxAcq [] (Some 496) 20]))"

definition conn_d :: rpmsg_socket_conn_s where
  "conn_d = fst (rpmsg_socket_ept_cb conn_c [] (DATA 5 0 []))"

section \<open>Properties\<close>

subsection \<open>The send window\<close>

lemma ack_in_window:
  fixes s a m sz :: u32
  assumes "unat (m - a) \<le> unat (s - a)" "unat (s - a) \<le> unat sz"
  shows "unat (s - m) \<le> unat sz"
proof -
  have e: "s - m = (s - a) - (m - a)" by simp
  have "m - a \<le> s - a" using assms(1) by (simp add: word_le_nat_alt)
  then have "unat ((s - a) - (m - a)) = unat (s - a) - unat (m - a)"
    by (rule unat_sub)
  with e assms(2) show ?thesis by simp
qed

lemma space_unat:
  fixes s a sz :: u32
  assumes "unat (s - a) \<le> unat sz"
  shows "unat (sz - (s - a)) = unat sz - unat (s - a)"
  using assms by (simp add: unat_sub word_le_nat_alt)

lemma advance_in_space:
  fixes s a sz b :: u32
  assumes "unat (s - a) \<le> unat sz" "b \<le> sz - (s - a)"
  shows "unat (s + b - a) \<le> unat sz"
proof -
  have "unat b \<le> unat sz - unat (s - a)"
    using assms by (simp add: word_le_nat_alt space_unat)
  moreover have "s + b - a = (s - a) + b" by simp
  then have "unat (s + b - a) = unat ((s - a) + b)" by (rule arg_cong)
  moreover have "unat ((s - a) + b) \<le> unat (s - a) + unat b"
    by (simp add: unat_word_ariths)
  ultimately show ?thesis using assms(1) by linarith
qed

lemma send_inv_alloc: "send_inv rpmsg_socket_alloc"
  by (simp add: send_inv_def rpmsg_socket_alloc_def)

lemma ept_cb_data_fields:
  "sendsize (fst (rpmsg_socket_ept_cb c ubuf (DATA mpos mlen payload))) = sendsize c
   \<and> sendpos (fst (rpmsg_socket_ept_cb c ubuf (DATA mpos mlen payload))) = sendpos c
   \<and> ackpos (fst (rpmsg_socket_ept_cb c ubuf (DATA mpos mlen payload))) = mpos"
  by (simp add: Let_def split: prod.splits)

text \<open>An admissible frame keeps the invariant.\<close>

lemma send_inv_ept_cb:
  assumes "send_inv c" "admissible c (RxFrame f)"
  shows "send_inv (fst (rpmsg_socket_ept_cb c ubuf f))"
proof (cases f)
  case (SYNC sz p u g)
  with assms show ?thesis by (simp add: send_inv_def)
next
  case (DATA mpos mlen payload)
  with assms ack_in_window [of mpos "ackpos c" "sendpos c" "sendsize c"] show ?thesis
    by (simp add: send_inv_def ept_cb_data_fields del: rpmsg_socket_ept_cb.simps)
qed

lemma send_inv_apply_event:
  assumes "send_inv (fst s)" "admissible (fst s) e"
  shows "send_inv (fst (apply_event s e))"
proof (cases s)
  case (Pair c u)
  show ?thesis
  proof (cases e)
    case (RxFrame f)
    with Pair assms send_inv_ept_cb [of c f u] show ?thesis by simp
  next
    case NsUnbind
    with Pair assms show ?thesis by (simp add: send_inv_def rpmsg_socket_ns_unbind_def)
  next
    case (DeviceCreated cpu)
    with Pair assms show ?thesis
      by (simp add: send_inv_def rpmsg_socket_device_created_def split: option.splits)
  next
    case (DeviceDestroy cpu)
    with Pair assms show ?thesis
      by (simp add: send_inv_def rpmsg_socket_device_destroy_def rpmsg_socket_destroy_ept_def
          split: option.splits)
  qed
qed

lemma send_inv_foldl:
  "send_inv (fst s) \<Longrightarrow> events_ok s evs \<Longrightarrow> send_inv (fst (foldl apply_event s evs))"
proof (induction evs arbitrary: s)
  case Nil
  then show ?case by simp
next
  case (Cons e es)
  from Cons.prems have a: "admissible (fst s) e" "events_ok (apply_event s e) es" by simp_all
  from send_inv_apply_event [OF Cons.prems(1) a(1)] a(2) Cons.IH show ?case by simp
qed

lemma send_inv_apply_events:
  "send_inv c \<Longrightarrow> events_ok (c, u) evs \<Longrightarrow> send_inv (fst (apply_events c u evs))"
  using send_inv_foldl [of "(c, u)" evs] by (simp add: apply_events_def)

lemma send_inv_wait_sendsem:
  assumes "send_inv c" "wait_ok c w" "wait_sendsem c [] w = (c1, u, r)"
  shows "send_inv c1"
proof -
  obtain evs wr where w: "w = Wait evs wr" by (cases w)
  obtain c' u' where a: "apply_events c [] evs = (c', u')" by (cases "apply_events c [] evs")
  from assms(3) w a have "c1 = c'\<lparr>sendsem := sem_take (sendsem c') wr\<rparr>"
    by (simp add: wait_sendsem_def)
  moreover have "send_inv c'"
    using send_inv_apply_events [OF assms(1), of "[]" evs] assms(2) w a by (simp add: wait_ok_def)
  ultimately show ?thesis by (simp add: send_inv_def)
qed

text \<open>The stream path advances \<open>sendpos\<close> by a block that is at most the send space.\<close>

lemma send_inv_continuous:
  assumes "send_inv c"
  shows "send_inv (fst (send_continuous_commit c remaining ipcsize))"
proof -
  let ?sp = "rpmsg_socket_get_space c"
  let ?b = "min (min remaining ?sp) (ipcsize - sizeof_msg)"
  have "?b \<le> sendsize c - (sendpos c - ackpos c)"
    by (simp add: rpmsg_socket_get_space_def min_le_iff_disj)
  with assms have "unat (sendpos c + ?b - ackpos c) \<le> unat (sendsize c)"
    using advance_in_space [of "sendpos c" "ackpos c" "sendsize c" ?b]
    by (simp add: send_inv_def)
  with assms show ?thesis
    by (simp add: send_inv_def send_continuous_commit_def Let_def)
qed

text \<open>
  The datagram path advances \<open>sendpos\<close> by the clamped frame length less the
  header, which is at most the send space once the frame holds its header.
\<close>

lemma send_inv_single:
  assumes "send_inv c" "sizeof_msg \<le> send_single_total c tot ipcsize"
  shows "send_inv (fst (send_single_commit c tot ipcsize))"
proof -
  let ?sp = "rpmsg_socket_get_space c"
  let ?t = "send_single_total c tot ipcsize"
  have t_le: "?t \<le> ?sp + 12"
    by (simp add: send_single_total_def sizeof_msg_def min_le_iff_disj)
  have h12: "(12::u32) \<le> ?t" using assms(2) by (simp add: sizeof_msg_def)
  then have "(12::u32) \<le> ?sp + 12" using t_le by simp
  then have "?sp \<le> ?sp + 12" using olen_add_eqv [of ?sp 12] by blast
  then have nowrap: "unat (?sp + 12) = unat ?sp + 12"
    by (simp add: unat_plus_simple)
  have "unat (?t - 12) = unat ?t - 12" using h12 by (simp add: unat_sub)
  moreover have "unat ?t \<le> unat ?sp + 12" using t_le nowrap by (simp add: word_le_nat_alt)
  ultimately have "unat (?t - 12) \<le> unat ?sp" by simp
  then have "?t - 12 \<le> sendsize c - (sendpos c - ackpos c)"
    by (simp add: word_le_nat_alt rpmsg_socket_get_space_def)
  with assms(1) have "unat (sendpos c + (?t - 12) - ackpos c) \<le> unat (sendsize c)"
    using advance_in_space [of "sendpos c" "ackpos c" "sendsize c" "?t - 12"]
    by (simp add: send_inv_def)
  moreover have "?t - sizeof_msg - 4 + 4 = ?t - 12" by (simp add: sizeof_msg_def)
  ultimately show ?thesis using assms(1)
    by (simp add: send_inv_def send_single_commit_def Let_def)
qed

text \<open>
  The clamped frame length holds the header whenever the requested length and
  the TX capacity do and the send space plus the header does not wrap.
\<close>

lemma send_single_total_ge:
  assumes "sizeof_msg \<le> tot" "sizeof_msg \<le> ipcsize"
    "unat (rpmsg_socket_get_space c) + 12 < 2 ^ 32"
  shows "sizeof_msg \<le> send_single_total c tot ipcsize"
proof -
  have "unat (rpmsg_socket_get_space c + 12) = unat (rpmsg_socket_get_space c) + unat (12::u32)"
    using assms(3) by (subst unat_add_lem [THEN iffD1]) simp_all
  then have "(12::u32) \<le> rpmsg_socket_get_space c + 12"
    by (simp add: word_le_nat_alt)
  with assms(1,2) show ?thesis
    by (simp add: send_single_total_def sizeof_msg_def)
qed



text \<open>The loops of the two send paths, over every environment that is in order.\<close>

lemma send_inv_continuous_loop:
  "send_inv conn \<Longrightarrow> send_continuous_env_ok conn len written nonblock ws txs
   \<Longrightarrow> send_inv (fst (snd (send_continuous_loop conn dat len written nonblock ws txs out)))"
proof (induction "length ws + length txs" arbitrary: conn written ws txs out rule: less_induct)
  case less
  note inv = less.prems(1) and ok = less.prems(2)
  show ?case
  proof (cases "written < len")
    case False
    then show ?thesis using inv by simp
  next
    case wl: True
    show ?thesis
    proof (cases "min (len - written) (rpmsg_socket_get_space conn) = 0")
      case z: True
      show ?thesis
      proof (cases "nonblock \<or> ws = []")
        case True
        with wl z inv show ?thesis by (auto split: list.splits)
      next
        case False
        then obtain w ws' where ws: "ws = w # ws'" and nb: "\<not> nonblock" by (cases ws) auto
        obtain c1 u r where wt: "wait_sendsem conn [] w = (c1, u, r)"
          by (cases "wait_sendsem conn [] w")
        from ok wl z nb ws have wok: "wait_ok conn w" by simp
        have i1: "send_inv c1" by (rule send_inv_wait_sendsem [OF inv wok wt])
        show ?thesis
        proof (cases "ept_gone c1 \<or> r \<noteq> None")
          case True
          with wl z nb ws wt i1 show ?thesis by (auto split: option.splits)
        next
          case False
          then have g: "\<not> ept_gone c1" "r = None" by auto
          from ok wl z nb ws wt g
          have ok1: "send_continuous_env_ok c1 len written nonblock ws' txs" by simp
          have "send_inv (fst (snd (send_continuous_loop c1 dat len written nonblock ws' txs out)))"
            by (rule less.hyps [OF _ i1 ok1]) (simp add: ws)
          moreover from wl z nb ws wt g
          have "send_continuous_loop conn dat len written nonblock ws txs out
                  = send_continuous_loop c1 dat len written nonblock ws' txs out"
            by simp
          ultimately show ?thesis by simp
        qed
      qed
    next
      case nz: False
      show ?thesis
      proof (cases txs)
        case Nil
        with wl nz inv show ?thesis by simp
      next
        case (Cons t txs')
        obtain evs ipc sret where t: "t = TxAcq evs ipc sret" by (cases t)
        from ok wl nz Cons t have eok: "events_ok (conn, []) evs" by simp
        define c1 where "c1 = fst (apply_events conn [] evs)"
        have i1: "send_inv c1"
          unfolding c1_def by (rule send_inv_apply_events [OF inv eok])
        show ?thesis
        proof (cases ipc)
          case None
          with wl nz Cons t i1 show ?thesis by (simp add: c1_def)
        next
          case (Some ipcsize)
          obtain c2 block where cm: "send_continuous_commit c1 (len - written) ipcsize = (c2, block)"
            by (cases "send_continuous_commit c1 (len - written) ipcsize")
          have i2: "send_inv c2"
            using send_inv_continuous [OF i1, of "len - written" ipcsize] cm by simp
          show ?thesis
          proof (cases "sret < 0")
            case True
            with wl nz Cons t Some cm i2 show ?thesis by (simp add: c1_def)
          next
            case False
            from ok wl nz Cons t Some cm False
            have ok2: "send_continuous_env_ok c2 len (written + block) nonblock ws txs'"
              by (simp add: c1_def)
            have "send_inv (fst (snd (send_continuous_loop c2 dat len (written + block) nonblock
                     ws txs' (out @ [DATA (recvpos c1) block
                                      (take (unat block) (drop (unat written) dat))]))))"
              by (rule less.hyps [OF _ i2 ok2]) (simp add: Cons)
            moreover from wl nz Cons t Some cm False
            have "send_continuous_loop conn dat len written nonblock ws txs out
                  = send_continuous_loop c2 dat len (written + block) nonblock
                     ws txs' (out @ [DATA (recvpos c1) block
                                      (take (unat block) (drop (unat written) dat))])"
              by (simp add: c1_def)
            ultimately show ?thesis by simp
          qed
        qed
      qed
    qed
  qed
qed


lemma send_inv_single_wait:
  "send_inv conn \<Longrightarrow> send_single_wait_ok conn tot nonblock ws
   \<Longrightarrow> send_inv (wait_end (send_single_wait conn tot nonblock ws))"
proof (induction ws arbitrary: conn)
  case Nil
  then show ?case by (simp add: wait_end_def)
next
  case (Cons w ws)
  note inv = Cons.prems(1) and ok = Cons.prems(2)
  show ?case
  proof (cases "rpmsg_socket_get_space conn \<ge> tot - sizeof_msg \<or> nonblock")
    case True
    with inv show ?thesis by (auto simp add: wait_end_def)
  next
    case False
    then have c: "\<not> rpmsg_socket_get_space conn \<ge> tot - sizeof_msg" "\<not> nonblock" by auto
    obtain c1 u r where wt: "wait_sendsem conn [] w = (c1, u, r)"
      by (cases "wait_sendsem conn [] w")
    from ok c have wok: "wait_ok conn w" by simp
    have i1: "send_inv c1" by (rule send_inv_wait_sendsem [OF inv wok wt])
    show ?thesis
    proof (cases "ept_gone c1 \<or> r \<noteq> None")
      case True
      with c wt i1 show ?thesis by (auto simp add: wait_end_def split: option.splits)
    next
      case False
      then have g: "\<not> ept_gone c1" "r = None" by auto
      from ok c wt g have ok1: "send_single_wait_ok c1 tot nonblock ws" by simp
      from c wt g have "send_single_wait conn tot nonblock (w # ws)
                         = send_single_wait c1 tot nonblock ws" by simp
      with Cons.IH [OF i1 ok1] show ?thesis by simp
    qed
  qed
qed

lemma send_inv_send_single:
  assumes "send_inv conn" "send_single_env_ok conn buf iovcnt nonblock ws tx"
  shows "send_inv (fst (snd (rpmsg_socket_send_single conn buf iovcnt nonblock ws tx)))"
proof -
  define tot where "tot = rpmsg_socket_get_iovlen buf iovcnt + sizeof_msg + 4"
  show ?thesis
  proof (cases "tot > sendsize conn")
    case True
    with assms(1) show ?thesis by (simp add: rpmsg_socket_send_single_def tot_def Let_def)
  next
    case nb: False
    from assms(2) nb have wok: "send_single_wait_ok conn tot nonblock ws"
      by (simp add: send_single_env_ok_def tot_def Let_def)
    have iw: "send_inv (wait_end (send_single_wait conn tot nonblock ws))"
      by (rule send_inv_single_wait [OF assms(1) wok])
    show ?thesis
    proof (cases "send_single_wait conn tot nonblock ws")
      case (Inl a)
      obtain e c where a: "a = (e, c)" by (cases a)
      from iw Inl a have "send_inv c" by (simp add: wait_end_def)
      with nb Inl a show ?thesis
        by (cases e) (simp_all add: rpmsg_socket_send_single_def tot_def Let_def)
    next
      case (Inr c)
      from iw Inr have ic: "send_inv c" by (simp add: wait_end_def)
      show ?thesis
      proof (cases tx)
        case None
        with nb Inr ic show ?thesis
          by (simp add: rpmsg_socket_send_single_def tot_def Let_def)
      next
        case (Some t)
        obtain evs ipc sret where t: "t = TxAcq evs ipc sret" by (cases t)
        from assms(2) nb Inr Some t have eok: "events_ok (c, []) evs"
          by (simp add: send_single_env_ok_def tot_def Let_def)
        define c1 where "c1 = fst (apply_events c [] evs)"
        have i1: "send_inv c1"
          unfolding c1_def by (rule send_inv_apply_events [OF ic eok])
        show ?thesis
        proof (cases ipc)
          case None
          with nb Inr Some t i1 show ?thesis
            by (simp add: rpmsg_socket_send_single_def tot_def Let_def c1_def)
        next
          case (Some ipcsize)
          from assms(2) nb Inr \<open>tx = Some t\<close> t Some
          have hd: "sizeof_msg \<le> send_single_total c1 tot ipcsize"
            by (simp add: send_single_env_ok_def tot_def Let_def c1_def)
          have i2: "send_inv (fst (send_single_commit c1 tot ipcsize))"
            by (rule send_inv_single [OF i1 hd])
          obtain c2 t2 l2 where cm: "send_single_commit c1 tot ipcsize = (c2, t2, l2)"
            by (cases "send_single_commit c1 tot ipcsize")
          with i2 have "send_inv c2" by simp
          with nb Inr \<open>tx = Some t\<close> t Some cm show ?thesis
            by (simp add: rpmsg_socket_send_single_def tot_def Let_def c1_def)
        qed
      qed
    qed
  qed
qed

lemma send_inv_connect_internal:
  assumes "send_inv conn" "connect_env_ok K conn env"
  shows "send_inv (snd (rpmsg_socket_connect_internal K conn env))"
proof -
  obtain resize_ok reg evs w where e: "env = ConnEnv resize_ok reg evs w" by (cases env)
  define c1 where "c1 = conn\<lparr>recvbuf := circbuf_resize (recvbuf conn) (RXBUF_SIZE K)\<rparr>"
  define c2 where "c2 = fst (apply_events c1 [] evs)"
  have i1: "send_inv c1" using assms(1) by (simp add: c1_def send_inv_def)
  from assms(2) e have eok: "events_ok (c1, []) evs"
    by (simp add: connect_env_ok_def c1_def Let_def)
  have i2: "send_inv c2" unfolding c2_def by (rule send_inv_apply_events [OF i1 eok])
  show ?thesis
  proof (cases "resize_ok \<and> reg = None \<and> sendsize c2 = 0 \<and> \<not> s_nonblock c2 \<and> w \<noteq> None")
    case True
    then obtain wt where wt: "w = Some wt" by auto
    obtain c3 u3 r3 where ws: "wait_sendsem c2 [] wt = (c3, u3, r3)"
      by (cases "wait_sendsem c2 [] wt")
    from assms(2) e wt have "wait_ok c2 wt"
      by (simp add: connect_env_ok_def c1_def c2_def Let_def)
    from send_inv_wait_sendsem [OF i2 this ws] have "send_inv c3" .
    with e True wt ws show ?thesis
      by (auto simp add: rpmsg_socket_connect_internal_def Let_def c1_def c2_def
          split: option.splits)
  next
    case False
    with e assms(1) i1 i2 show ?thesis
      by (auto simp add: rpmsg_socket_connect_internal_def Let_def c1_def c2_def
          split: option.splits if_splits prod.splits)
  qed
qed

lemma send_inv_send_dispatch:
  assumes "send_inv conn" "send_dispatch_env_ok ty conn msg dontwait ws txs"
  shows "send_inv (fst (snd (send_dispatch ty conn msg dontwait ws txs)))"
proof (cases "ept_gone conn")
  case True
  with assms(1) show ?thesis by (simp add: send_dispatch_def)
next
  case False
  show ?thesis
  proof (cases "ty = SOCK_STREAM")
    case True
    from False True assms(2)
    have ok: "send_continuous_env_ok conn (rpmsg_socket_get_iovlen (msg_iov msg) (msg_iovlen msg)) 0
                (s_nonblock conn \<or> dontwait) ws txs"
      by (simp add: send_dispatch_env_ok_def Let_def del: send_continuous_env_ok.simps)
    from send_inv_continuous_loop [OF assms(1) ok] False True show ?thesis
      by (simp add: send_dispatch_def rpmsg_socket_send_continuous_def Let_def
          del: send_continuous_loop.simps)
  next
    case dg: False
    from False dg assms(2)
    have ok: "send_single_env_ok conn (msg_iov msg) (msg_iovlen msg) (s_nonblock conn \<or> dontwait) ws
                (case txs of [] \<Rightarrow> None | t # ts \<Rightarrow> Some t)"
      by (simp add: send_dispatch_env_ok_def Let_def)
    from send_inv_send_single [OF assms(1) ok] False dg show ?thesis
      by (simp add: send_dispatch_def Let_def)
  qed
qed

lemma send_inv_sendmsg:
  assumes "send_inv conn" "sendmsg_env_ok K ty conn msg dontwait g cenv ws txs"
  shows "send_inv (fst (snd (rpmsg_socket_sendmsg K ty conn msg dontwait g cenv ws txs)))"
proof (cases "s_connected conn")
  case True
  obtain r c' tx where d: "send_dispatch ty conn msg dontwait ws txs = (r, c', tx)"
    by (cases "send_dispatch ty conn msg dontwait ws txs")
  from True assms(2) have "send_dispatch_env_ok ty conn msg dontwait ws txs"
    by (simp add: sendmsg_env_ok_def)
  from send_inv_send_dispatch [OF assms(1) this] d True show ?thesis
    by (simp add: rpmsg_socket_sendmsg_def)
next
  case nc: False
  show ?thesis
  proof (cases "msg_name msg")
    case None
    with nc assms(1) show ?thesis by (simp add: rpmsg_socket_sendmsg_def)
  next
    case (Some to)
    show ?thesis
    proof (cases "rpmsg_socket_setaddr K conn to (msg_namelen msg) (ty = SOCK_STREAM) g")
      case (Inl e)
      with nc Some assms(1) show ?thesis
        by (simp add: rpmsg_socket_sendmsg_def rpmsg_socket_connect_def)
    next
      case (Inr a)
      obtain c g' where a: "a = (c, g')" by (cases a)
      have ic: "send_inv c"
        using Inr a assms(1)
        by (auto simp add: rpmsg_socket_setaddr_def send_inv_def split: if_splits)
      from assms(2) nc Some Inr a have cok: "connect_env_ok K c cenv"
        by (simp add: sendmsg_env_ok_def)
      obtain r c' where ci: "rpmsg_socket_connect_internal K c cenv = (r, c')"
        by (cases "rpmsg_socket_connect_internal K c cenv")
      have ic': "send_inv c'"
        using send_inv_connect_internal [OF ic cok] ci by simp
      show ?thesis
      proof (cases "\<exists>u. r = Some (Inr u)")
        case True
        then obtain u where r: "r = Some (Inr u)" by auto
        from assms(2) nc Some Inr a ci r
        have "send_dispatch_env_ok ty c' msg dontwait ws txs"
          by (simp add: sendmsg_env_ok_def)
        moreover obtain r2 c2 tx2 where "send_dispatch ty c' msg dontwait ws txs = (r2, c2, tx2)"
          by (cases "send_dispatch ty c' msg dontwait ws txs")
        ultimately show ?thesis
          using send_inv_send_dispatch [OF ic', of ty msg dontwait ws txs] nc Some Inr a ci r
          by (simp add: rpmsg_socket_sendmsg_def rpmsg_socket_connect_def)
      next
        case False
        with nc Some Inr a ci ic' show ?thesis
          by (cases r)
             (auto simp add: rpmsg_socket_sendmsg_def rpmsg_socket_connect_def
               split: sum.splits)
      qed
    qed
  qed
qed

text \<open>
  C1 (as amended). The invariant \<open>0 \<le> sendpos - ackpos \<le> sendsize\<close> holds for a
  fresh connection. Whenever it holds, the send space the helper computes is
  \<open>sendsize - (sendpos - ackpos)\<close> as integers with no wrap-around, and the
  invariant holds again after the inbound dispatch of every admissible frame (a
  SYNC whose window holds the bytes in flight, a DATA frame whose \<open>pos\<close>
  acknowledges bytes in flight) and after every call of sendmsg, implicit
  connect included, during which the events that arrive are admissible and the
  datagram path clamps its frame to at least the 12-byte DATA header.
\<close>

theorem send_window_preserved:
  "send_inv rpmsg_socket_alloc
   \<and> (send_inv conn \<longrightarrow>
        0 \<le> uint (sendpos conn - ackpos conn)
      \<and> uint (sendpos conn - ackpos conn) \<le> uint (sendsize conn)
      \<and> uint (rpmsg_socket_get_space conn)
          = uint (sendsize conn) - uint (sendpos conn - ackpos conn)
      \<and> (admissible conn (RxFrame f) \<longrightarrow> send_inv (fst (rpmsg_socket_ept_cb conn ubuf f)))
      \<and> (sendmsg_env_ok K ty conn msg dontwait g cenv ws txs \<longrightarrow>
           send_inv (fst (snd (rpmsg_socket_sendmsg K ty conn msg dontwait g cenv ws txs)))))"
proof (intro conjI impI)
  show "send_inv rpmsg_socket_alloc" by (rule send_inv_alloc)
next
  assume inv: "send_inv conn"
  then have i: "unat (sendpos conn - ackpos conn) \<le> unat (sendsize conn)"
    by (simp add: send_inv_def)
  have sp: "unat (rpmsg_socket_get_space conn)
              = unat (sendsize conn) - unat (sendpos conn - ackpos conn)"
    using i by (simp add: rpmsg_socket_get_space_def space_unat)
  show "0 \<le> uint (sendpos conn - ackpos conn)" by simp
  show "uint (sendpos conn - ackpos conn) \<le> uint (sendsize conn)"
    unfolding uint_nat using i by linarith
  show "uint (rpmsg_socket_get_space conn)
          = uint (sendsize conn) - uint (sendpos conn - ackpos conn)"
    unfolding uint_nat using i sp by linarith
  show "send_inv (fst (rpmsg_socket_ept_cb conn ubuf f))" if "admissible conn (RxFrame f)"
    by (rule send_inv_ept_cb [OF inv that])
  show "send_inv (fst (snd (rpmsg_socket_sendmsg K ty conn msg dontwait g cenv ws txs)))"
    if "sendmsg_env_ok K ty conn msg dontwait g cenv ws txs"
    by (rule send_inv_sendmsg [OF inv that])
qed

text \<open>The counters along the run that loses its peer and finds a fresh one.\<close>

lemmas run_defs =
  rpmsg_socket_sendmsg_def rpmsg_socket_connect_def rpmsg_socket_setaddr_def
  rpmsg_socket_connect_internal_def apply_events_def wait_sendsem_def sem_take_def
  rpmsg_socket_device_created_def rpmsg_socket_device_destroy_def rpmsg_socket_destroy_ept_def
  send_dispatch_def rpmsg_socket_send_continuous_def send_continuous_commit_def send_result_def
  rpmsg_socket_send_single_def send_single_commit_def send_single_total_def
  iov_bytes_def circbuf_resize_def K0_def sizeof_msg_def ept_gone_def
  rpmsg_socket_get_space_def rpmsg_socket_post_def rpmsg_socket_alloc_def Let_def
  sendmsg_env_ok_def connect_env_ok_def send_dispatch_env_ok_def send_single_env_ok_def
  wait_ok_def

lemma conn_a_fields:
  "sendsize conn_a = 8 \<and> sendpos conn_a = 8 \<and> ackpos conn_a = 0 \<and> s_connected conn_a
   \<and> ept_rdev conn_a = Some ''remote'' \<and> \<not> unbind conn_a \<and> \<not> s_nonblock conn_a
   \<and> rp_cpu (rpaddr conn_a) = ''remote''"
  by (simp add: conn_a_def msg8_def cenv_sync_def addr_remote_def run_defs)

lemma conn_b_fields:
  "sendsize conn_b = 8 \<and> sendpos conn_b = 8 \<and> ackpos conn_b = 8 \<and> s_connected conn_b
   \<and> ept_rdev conn_b = Some ''remote'' \<and> \<not> unbind conn_b \<and> \<not> s_nonblock conn_b"
  using conn_a_fields
  by (simp add: conn_b_def apply_events_def rpmsg_socket_device_created_def
      rpmsg_socket_device_destroy_def rpmsg_socket_destroy_ept_def Let_def)

lemma conn_c_fields:
  "sendsize conn_c = 8 \<and> sendpos conn_c = 16 \<and> ackpos conn_c = 8"
  using conn_b_fields
  by (simp add: conn_c_def msg8_def run_defs)

lemma conn_d_fields:
  "sendsize conn_d = 8 \<and> sendpos conn_d = 16 \<and> ackpos conn_d = 5"
  using conn_c_fields
  by (simp add: conn_d_def Let_def)

text \<open>The environment of the first send of that run is in order.\<close>

lemma run_a_env_ok:
  "sendmsg_env_ok K0 SOCK_STREAM rpmsg_socket_alloc msg8 False 0 cenv_sync []
     [TxAcq [] (Some 496) 20]"
  by (simp add: msg8_def cenv_sync_def addr_remote_def run_defs)

theorem send_window_preserved_witness:
  "send_inv conn_a
   \<and> send_inv (fst (rpmsg_socket_ept_cb conn_a [] (DATA 8 0 [])))
   \<and> uint (sendpos conn_a - ackpos conn_a) = 8
   \<and> uint (rpmsg_socket_get_space conn_a) = 0"
proof -
  have a0: "send_inv rpmsg_socket_alloc"
    using send_window_preserved by blast
  have ia: "send_inv conn_a"
    unfolding conn_a_def
    using send_window_preserved
            [of rpmsg_socket_alloc _ _ K0 SOCK_STREAM msg8 False 0 cenv_sync "[]"
                "[TxAcq [] (Some 496) 20]"]
          a0 run_a_env_ok
    by blast
  have ad: "admissible conn_a (RxFrame (DATA 8 0 []))"
    using conn_a_fields by simp
  have ib: "send_inv (fst (rpmsg_socket_ept_cb conn_a [] (DATA 8 0 [])))"
    using send_window_preserved [of conn_a "DATA 8 0 []" "[]"] ia ad by blast
  have sp: "uint (rpmsg_socket_get_space conn_a)
              = uint (sendsize conn_a) - uint (sendpos conn_a - ackpos conn_a)"
    using send_window_preserved [of conn_a] ia by blast
  show ?thesis
    using ia ib sp conn_a_fields by simp
qed

text \<open>
  Without these conditions C1 fails. In the run from \<open>conn_a\<close> to \<open>conn_d\<close>
  every frame before the last is admissible and the invariant holds in \<open>conn_c\<close>; the fresh peer's
  acknowledgement of the five bytes it has read sets \<open>ackpos = 5\<close> under
  \<open>sendpos = 16\<close>, which the code never reset when the endpoint was created
  again, so eleven bytes count as in flight in a window of 8. And a datagram
  sent through a TX buffer of eight bytes, shorter than the DATA header, is
  clamped to a frame length of 8, so that \<open>sendpos\<close> advances by \<open>8 - 12\<close> and
  wraps.
\<close>

theorem send_window_counterexample:
  "send_inv conn_c
   \<and> events_ok (conn_a, []) [RxFrame (DATA 8 0 []), DeviceDestroy ''remote'', DeviceCreated ''remote'',
                            RxFrame (SYNC 8 4 5 6)]
   \<and> sendsize conn_d = 8 \<and> sendpos conn_d = 16 \<and> ackpos conn_d = 5
   \<and> \<not> send_inv conn_d
   \<and> send_inv conn_dg
   \<and> sendpos (fst (snd (rpmsg_socket_sendmsg K0 SOCK_DGRAM conn_dg msg_three False 0 cenv0 []
                          [TxAcq [] (Some 8) 8]))) = 4294967292
   \<and> \<not> send_inv (fst (snd (rpmsg_socket_sendmsg K0 SOCK_DGRAM conn_dg msg_three False 0 cenv0 []
                          [TxAcq [] (Some 8) 8])))"
proof -
  have r2: "fst (snd (rpmsg_socket_sendmsg K0 SOCK_DGRAM conn_dg msg_three False 0 cenv0 []
                          [TxAcq [] (Some 8) 8]))
            = conn_dg\<lparr>sendpos := 4294967292\<rparr>"
    by (simp add: conn_dg_def msg_three_def run_defs)
  have dg: "sendsize conn_dg = 1024 \<and> sendpos conn_dg = 0 \<and> ackpos conn_dg = 0"
    by (simp add: conn_dg_def rpmsg_socket_alloc_def Let_def)
  have ev: "events_ok (conn_a, []) [RxFrame (DATA 8 0 []), DeviceDestroy ''remote'',
                                     DeviceCreated ''remote'', RxFrame (SYNC 8 4 5 6)]"
    using conn_a_fields
    by (simp add: rpmsg_socket_get_space_def rpmsg_socket_post_def rpmsg_socket_device_created_def
        rpmsg_socket_device_destroy_def rpmsg_socket_destroy_ept_def Let_def)
  have inv: "send_inv conn_c \<and> \<not> send_inv conn_d \<and> send_inv conn_dg
             \<and> \<not> send_inv (conn_dg\<lparr>sendpos := 4294967292\<rparr>)"
    using conn_c_fields conn_d_fields dg
    by (simp add: send_inv_def)
  show ?thesis
    unfolding r2
    using ev inv conn_d_fields
    by simp
qed

subsection \<open>recvmsg\<close>

lemma memcpy_nil [simp]: "memcpy dst [] = dst"
  by (simp add: memcpy_def)

lemma recv_buffered_stream_empty:
  "circbuf_is_empty (recvbuf conn) \<Longrightarrow>
   recv_buffered SOCK_STREAM conn ubuf len junk = (0, conn, ubuf)"
  by (simp add: recv_buffered_def circbuf_read_def circbuf_is_empty_def)

text \<open>
  C5. A socket that is not connected and does not take the implicit connect of a
  bound datagram socket (it is a stream socket, or it is not bound) gets
  \<open>EISCONN\<close> from recvmsg, and nothing changes.
\<close>

theorem recvmsg_unconnected:
  assumes "msg_iov msg = iv # ivs" "\<not> s_connected conn" "ty = SOCK_STREAM \<or> \<not> s_bound conn"
  shows "rpmsg_socket_recvmsg K ty conn msg dontwait cenv junk w
           = (Some (Inl EISCONN), conn, msg, [])"
  using assms by (auto simp add: rpmsg_socket_recvmsg_def)

theorem recvmsg_unconnected_witness:
  "rpmsg_socket_recvmsg K0 SOCK_STREAM rpmsg_socket_alloc msg0 False cenv0 0 None
     = (Some (Inl EISCONN), rpmsg_socket_alloc, msg0, [])
   \<and> rpmsg_socket_recvmsg K0 SOCK_DGRAM rpmsg_socket_alloc msg0 False cenv0 0 None
     = (Some (Inl EISCONN), rpmsg_socket_alloc, msg0, [])"
proof -
  have m: "msg_iov msg0 = \<lparr>iov_base = [0, 0, 0, 0, 0, 0, 0, 0], iov_len = 8\<rparr> # []"
    by (simp add: msg0_def)
  have n: "\<not> s_connected rpmsg_socket_alloc" "\<not> s_bound rpmsg_socket_alloc"
    by (simp_all add: rpmsg_socket_alloc_def)
  show ?thesis
    using recvmsg_unconnected [OF m n(1), of SOCK_STREAM K0 False cenv0 0 None]
          recvmsg_unconnected [OF m n(1), of SOCK_DGRAM K0 False cenv0 0 None] n(2)
    by simp
qed

text \<open>
  The implicit connect of a bound datagram socket can also end without a SYNC
  (the wait is ended by an unbind); recvmsg then returns \<open>EISCONN\<close> as well.
\<close>

lemma recvmsg_after_connect_without_sync:
  assumes "msg_iov msg = iv # ivs" "ty \<noteq> SOCK_STREAM" "s_bound conn" "\<not> s_connected conn"
    "rpmsg_socket_connect_internal K conn cenv = (Some (Inr ()), c)" "\<not> s_connected c"
  shows "rpmsg_socket_recvmsg K ty conn msg dontwait cenv junk w
           = (Some (Inl EISCONN), c, msg, [])"
  using assms by (simp add: rpmsg_socket_recvmsg_def)

text \<open>
  C8. On a connected stream socket whose receive buffer is empty and whose
  endpoint is gone or unbound, recvmsg returns 0; it neither blocks nor fails,
  whatever the blocking mode, and nothing changes.
\<close>

theorem recvmsg_eof:
  assumes "msg_iov msg = iv # ivs" "s_connected conn" "circbuf_is_empty (recvbuf conn)"
    "ept_gone conn"
  shows "rpmsg_socket_recvmsg K SOCK_STREAM conn msg dontwait cenv junk w
           = (Some (Inr 0), conn, msg, [])"
proof -
  have "msg\<lparr>msg_iov := iv\<lparr>iov_base := iov_base iv\<rparr> # ivs\<rparr> = msg"
    using assms(1) by simp
  then show ?thesis
    using assms by (simp add: rpmsg_socket_recvmsg_def recv_buffered_stream_empty recv_out_def)
qed

theorem recvmsg_eof_witness:
  "rpmsg_socket_recvmsg K0 SOCK_STREAM conn_eof msg0 False cenv0 0 None
     = (Some (Inr 0), conn_eof, msg0, [])"
proof -
  have m: "msg_iov msg0 = \<lparr>iov_base = [0, 0, 0, 0, 0, 0, 0, 0], iov_len = 8\<rparr> # []"
    by (simp add: msg0_def)
  have c: "s_connected conn_eof" "circbuf_is_empty (recvbuf conn_eof)" "ept_gone conn_eof"
    by (simp_all add: conn_eof_def rpmsg_socket_ns_unbind_def rpmsg_socket_alloc_def
        circbuf_is_empty_def ept_gone_def)
  show ?thesis
    using recvmsg_eof [OF m c, of K0 False cenv0 0 None] by simp
qed

text \<open>Definitions unfolded to run the model on concrete inputs.\<close>

lemmas model_defs =
  rpmsg_socket_recvmsg_def recv_buffered_def recv_out_def recv_blocking_def
  rpmsg_socket_wakeup_def rpmsg_socket_getaddr_def ept_gone_def
  circbuf_read_def circbuf_write_def circbuf_skip_def circbuf_size_def circbuf_is_empty_def
  rpmsg_socket_get_space_def rpmsg_socket_post_def rpmsg_socket_alloc_def
  rpmsg_socket_ns_unbind_def memcpy_def Let_def


subsubsection \<open>What the inbound callbacks leave alone\<close>

text \<open>
  While a reader is blocked with a buffer of \<open>L\<close> bytes published, no callback
  writes past the first \<open>L\<close> bytes of it, raises \<open>recvlen\<close> or touches
  \<open>lastpos\<close>.
\<close>

lemma drop_memcpy: "length src \<le> L \<Longrightarrow> drop L (memcpy dst src) = drop L dst"
  by (simp add: memcpy_def)

lemma ept_cb_ubuf:
  assumes "unat (recvlen c) \<le> L" "rpmsg_socket_ept_cb c u f = (c', u')"
  shows "unat (recvlen c') \<le> L \<and> drop L u' = drop L u \<and> lastpos c' = lastpos c"
proof (cases f)
  case (SYNC sz p ui g)
  with assms show ?thesis by auto
next
  case (DATA mpos mlen payload)
  have m: "unat (min (recvlen c) mlen) \<le> L"
    using assms(1) by (simp add: min_def word_le_nat_alt)
  show ?thesis
    using assms DATA m
    by (auto simp add: Let_def drop_memcpy split: if_splits prod.splits)
qed

lemma apply_event_ubuf:
  assumes "unat (recvlen c) \<le> L" "apply_event (c, u) ev = (c', u')"
  shows "unat (recvlen c') \<le> L \<and> drop L u' = drop L u \<and> lastpos c' = lastpos c"
proof (cases ev)
  case (RxFrame f)
  with assms ept_cb_ubuf [of c L u f c' u'] show ?thesis by simp
next
  case NsUnbind
  with assms show ?thesis by (auto simp add: rpmsg_socket_ns_unbind_def)
next
  case (DeviceCreated cpu)
  with assms show ?thesis
    by (auto simp add: rpmsg_socket_device_created_def split: option.splits if_splits)
next
  case (DeviceDestroy cpu)
  with assms show ?thesis
    by (auto simp add: rpmsg_socket_device_destroy_def rpmsg_socket_destroy_ept_def
        split: option.splits if_splits)
qed

lemma apply_events_ubuf:
  "unat (recvlen c) \<le> L \<Longrightarrow> apply_events c u evs = (c', u')
   \<Longrightarrow> unat (recvlen c') \<le> L \<and> drop L u' = drop L u \<and> lastpos c' = lastpos c"
proof (induction evs arbitrary: c u)
  case Nil
  then show ?case by (simp add: apply_events_def)
next
  case (Cons ev evs)
  obtain c1 u1 where s: "apply_event (c, u) ev = (c1, u1)" by (cases "apply_event (c, u) ev")
  from Cons.prems(2) s have r: "apply_events c1 u1 evs = (c', u')"
    by (simp add: apply_events_def)
  from apply_event_ubuf [OF Cons.prems(1) s] Cons.IH [OF _ r] show ?case by simp
qed


lemma min_len_le: "unat (min (d::u32) len) \<le> unat len"
  by (simp add: min_def word_le_nat_alt)


lemma recv_buffered_bound:
  assumes "recv_buffered ty c buf len junk = (ret, c1, u1)"
  shows "ret \<le> unat len \<and> drop (unat len) u1 = drop (unat len) buf \<and> lastpos c1 = lastpos c"
proof (cases "ty = SOCK_STREAM")
  case True
  with assms show ?thesis
    by (auto simp add: recv_buffered_def circbuf_read_def Let_def drop_memcpy)
next
  case False
  show ?thesis
  proof (cases "cb_bytes (recvbuf c) = []")
    case True
    with assms False show ?thesis
      by (auto simp add: recv_buffered_def circbuf_read_def Let_def)
  next
    case ne: False
    define d where "d = read_u32 junk (take 4 (cb_bytes (recvbuf c)))"
    define bytes where "bytes = take (unat (min d len)) (drop 4 (cb_bytes (recvbuf c)))"
    have l: "length bytes \<le> unat len"
      using min_len_le [of d len] by (simp add: bytes_def)
    from assms False ne have "ret = length bytes" "u1 = memcpy buf bytes" "lastpos c1 = lastpos c"
      by (auto simp add: recv_buffered_def circbuf_read_def Let_def d_def bytes_def
          split: if_splits)
    with l show ?thesis by (simp add: drop_memcpy)
  qed
qed

lemma wakeup_fields:
  "rpmsg_socket_wakeup c = (c', tx) \<Longrightarrow>
     recvpos c' = recvpos c \<and> recvbuf c' = recvbuf c \<and> ept_gone c' = ept_gone c
     \<and> tx = (if \<not> ept_gone c \<and> circbuf_size (recvbuf c) div 2 < unat (recvpos c - lastpos c)
             then [DATA (recvpos c) 0 []] else [])
     \<and> lastpos c' = (if \<not> ept_gone c \<and> circbuf_size (recvbuf c) div 2 < unat (recvpos c - lastpos c)
             then recvpos c else lastpos c)"
  by (auto simp add: rpmsg_socket_wakeup_def Let_def ept_gone_def split: if_splits)

lemma recv_out_shape:
  assumes "recv_out K c msg iv ivs u ret = (r, c', m', tx)"
  shows "r = Some ret \<and> msg_iov m' = iv\<lparr>iov_base := u\<rparr> # ivs \<and> msg_iovlen m' = msg_iovlen msg"
  using assms
  by (auto simp add: recv_out_def Let_def split: sum.splits if_splits prod.splits)

lemma recv_out_ack:
  assumes "recv_out K c msg iv ivs u (Inr n) = (r, c', m', tx)" "0 < n"
  shows "tx = (if \<not> ept_gone c' \<and> circbuf_size (recvbuf c') div 2 < unat (recvpos c' - lastpos c)
               then [DATA (recvpos c') 0 []] else [])
       \<and> lastpos c' = (if \<not> ept_gone c' \<and> circbuf_size (recvbuf c') div 2 < unat (recvpos c' - lastpos c)
               then recvpos c' else lastpos c)"
proof -
  obtain cw txw where w: "rpmsg_socket_wakeup c = (cw, txw)" by (cases "rpmsg_socket_wakeup c")
  from assms w have "c' = cw" "tx = txw"
    by (auto simp add: recv_out_def Let_def split: sum.splits)
  with wakeup_fields [OF w] show ?thesis by simp
qed


lemma wait_recvsem_ubuf:
  assumes "unat (recvlen c) \<le> L" "wait_recvsem c u w = (c', u', r)"
  shows "unat (recvlen c') \<le> L \<and> drop L u' = drop L u \<and> lastpos c' = lastpos c"
proof -
  obtain evs wr where w: "w = Wait evs wr" by (cases w)
  obtain c1 u1 where a: "apply_events c u evs = (c1, u1)" by (cases "apply_events c u evs")
  from assms(2) w a have "c' = c1\<lparr>recvsem := sem_take (recvsem c1) wr\<rparr>" "u' = u1"
    by (simp_all add: wait_recvsem_def)
  with apply_events_ubuf [OF assms(1) a] show ?thesis by simp
qed

lemma wait_sendsem_lastpos:
  assumes "wait_sendsem c u w = (c', u', r)"
  shows "lastpos c' = lastpos c"
proof -
  obtain evs wr where w: "w = Wait evs wr" by (cases w)
  obtain c1 u1 where a: "apply_events c u evs = (c1, u1)" by (cases "apply_events c u evs")
  from assms w a have "c' = c1\<lparr>sendsem := sem_take (sendsem c1) wr\<rparr>"
    by (simp add: wait_sendsem_def)
  with apply_events_ubuf [OF order_refl a] show ?thesis by simp
qed

lemma connect_internal_lastpos:
  assumes "rpmsg_socket_connect_internal K c env = (r, c')"
  shows "lastpos c' = lastpos c"
proof -
  obtain resize_ok reg evs w where e: "env = ConnEnv resize_ok reg evs w" by (cases env)
  let ?c1 = "c\<lparr>recvbuf := circbuf_resize (recvbuf c) (RXBUF_SIZE K)\<rparr>"
  obtain c2 u2 where a: "apply_events ?c1 [] evs = (c2, u2)"
    by (cases "apply_events ?c1 [] evs")
  have l2: "lastpos c2 = lastpos c"
    using apply_events_ubuf [OF order_refl a] by simp
  show ?thesis
  proof (cases "resize_ok \<and> reg = None \<and> sendsize c2 = 0 \<and> \<not> s_nonblock c2 \<and> w \<noteq> None")
    case True
    then obtain wt where wt: "w = Some wt" by auto
    obtain c3 u3 r3 where ws: "wait_sendsem c2 [] wt = (c3, u3, r3)"
      by (cases "wait_sendsem c2 [] wt")
    from assms e a True wt ws have "c' = c3"
      by (auto simp add: rpmsg_socket_connect_internal_def Let_def split: option.splits)
    with wait_sendsem_lastpos [OF ws] l2 show ?thesis by simp
  next
    case False
    with assms e a l2 show ?thesis
      by (auto simp add: rpmsg_socket_connect_internal_def Let_def
          split: option.splits if_splits prod.splits)
  qed
qed


lemma recv_tracedI_out:
  "lastpos cpre = lastpos conn
   \<Longrightarrow> drop (unat (iov_len iv)) b = drop (unat (iov_len iv)) (iov_base iv)
   \<Longrightarrow> (case ret of Inl e \<Rightarrow> True | Inr n \<Rightarrow> n \<le> unat (iov_len iv))
   \<Longrightarrow> recv_traced K conn msg iv ivs (recv_out K cpre msg iv ivs b ret)"
  unfolding recv_traced_def by blast

lemma recv_tracedI_blocked:
  "drop (unat (iov_len iv)) b = drop (unat (iov_len iv)) (iov_base iv)
   \<Longrightarrow> recv_traced K conn msg iv ivs (None, c, msg\<lparr>msg_iov := iv\<lparr>iov_base := b\<rparr> # ivs\<rparr>, [])"
  unfolding recv_traced_def by blast

lemma recv_tracedI_early:
  "recv_traced K conn msg iv ivs (None, c, msg, [])"
  "recv_traced K conn msg iv ivs (Some (Inl e), c, msg, [])"
  unfolding recv_traced_def by blast+

lemma recv_blocking_traced:
  assumes "lastpos c1 = lastpos conn"
    "drop (unat (iov_len iv)) u = drop (unat (iov_len iv)) (iov_base iv)"
  shows "recv_traced K conn msg iv ivs (recv_blocking K c1 msg iv ivs u (iov_len iv) w)"
proof (cases w)
  case None
  with assms show ?thesis
    by (simp add: recv_blocking_def Let_def recv_tracedI_blocked)
next
  case (Some wt)
  let ?c2 = "c1\<lparr>recvdata := True, recvlen := iov_len iv, recvsem := 0\<rparr>"
  obtain c3 u3 r3 where ws: "wait_recvsem ?c2 u wt = (c3, u3, r3)"
    by (cases "wait_recvsem ?c2 u wt")
  have "unat (recvlen ?c2) \<le> unat (iov_len iv)" by simp
  from wait_recvsem_ubuf [OF this ws] assms
  have f: "unat (recvlen c3) \<le> unat (iov_len iv)"
      "drop (unat (iov_len iv)) u3 = drop (unat (iov_len iv)) (iov_base iv)"
      "lastpos c3 = lastpos conn"
    by simp_all
  show ?thesis
  proof (cases "recvdata c3")
    case False
    with Some ws have "recv_blocking K c1 msg iv ivs u (iov_len iv) w
        = recv_out K c3 msg iv ivs u3 (Inr (unat (recvlen c3)))"
      by (simp add: recv_blocking_def Let_def)
    with f show ?thesis by (simp add: recv_tracedI_out)
  next
    case True
    let ?ret = "if ept_gone c3 then Inl ECONNRESET
                else (case r3 of None \<Rightarrow> Inr 0 | Some e \<Rightarrow> Inl e)"
    from True Some ws have "recv_blocking K c1 msg iv ivs u (iov_len iv) w
        = recv_out K (c3\<lparr>recvdata := False\<rparr>) msg iv ivs u3 ?ret"
      by (simp add: recv_blocking_def Let_def)
    moreover have "case ?ret of Inl e \<Rightarrow> True | Inr n \<Rightarrow> n \<le> unat (iov_len iv)"
      by (simp split: option.splits)
    ultimately show ?thesis using f by (simp add: recv_tracedI_out del: if_split)
  qed
qed

lemma recvmsg_traced:
  assumes "msg_iov msg = iv # ivs"
  shows "recv_traced K conn msg iv ivs (rpmsg_socket_recvmsg K ty conn msg dontwait cenv junk w)"
proof -
  let ?imp = "ty \<noteq> SOCK_STREAM \<and> s_bound conn \<and> \<not> s_connected conn"
  obtain r0 c where rc:
    "(if ?imp then rpmsg_socket_connect_internal K conn cenv else (Some (Inr ()), conn)) = (r0, c)"
    by (cases "if ?imp then rpmsg_socket_connect_internal K conn cenv else (Some (Inr ()), conn)")
  have lc: "lastpos c = lastpos conn"
    using rc connect_internal_lastpos [of K conn cenv r0 c] by (simp split: if_splits)
  obtain ret c1 ubuf where rb: "recv_buffered ty c (iov_base iv) (iov_len iv) junk = (ret, c1, ubuf)"
    by (cases "recv_buffered ty c (iov_base iv) (iov_len iv) junk")
  from recv_buffered_bound [OF rb] lc
  have b: "ret \<le> unat (iov_len iv)"
      "drop (unat (iov_len iv)) ubuf = drop (unat (iov_len iv)) (iov_base iv)"
      "lastpos c1 = lastpos conn"
    by simp_all
  show ?thesis
  proof (cases r0)
    case None
    with assms rc have "rpmsg_socket_recvmsg K ty conn msg dontwait cenv junk w = (None, c, msg, [])"
      by (simp add: rpmsg_socket_recvmsg_def Let_def del: if_split cong: if_cong)
    then show ?thesis by (simp add: recv_tracedI_early)
  next
    case (Some a)
    show ?thesis
    proof (cases a)
      case (Inl e)
      with Some assms rc
      have "rpmsg_socket_recvmsg K ty conn msg dontwait cenv junk w = (Some (Inl e), c, msg, [])"
        by (simp add: rpmsg_socket_recvmsg_def Let_def del: if_split cong: if_cong)
      then show ?thesis by (simp add: recv_tracedI_early)
    next
      case (Inr u)
      with Some assms rc rb
      have unf: "rpmsg_socket_recvmsg K ty conn msg dontwait cenv junk w =
         (if \<not> s_connected c then (Some (Inl EISCONN), c, msg, [])
          else if ret > 0 then recv_out K c1 msg iv ivs ubuf (Inr ret)
          else if ept_gone c1 then recv_out K c1 msg iv ivs ubuf (Inr 0)
          else if s_nonblock c1 \<or> dontwait then recv_out K c1 msg iv ivs ubuf (Inl EAGAIN)
          else recv_blocking K c1 msg iv ivs ubuf (iov_len iv) w)"
        by (simp add: rpmsg_socket_recvmsg_def Let_def del: if_split cong: if_cong)
      show ?thesis
        unfolding unf
        using b recv_blocking_traced [OF b(3) b(2), of K msg ivs w]
        by (simp add: recv_tracedI_out recv_tracedI_early)
    qed
  qed
qed


lemma recv_out_retarget:
  "recv_out K c (msg\<lparr>msg_iov := xs, msg_iovlen := k\<rparr>) iv ivs2 u ret
     = retarget ivs2 k (recv_out K c msg iv ivs u ret)"
  by (simp add: recv_out_def retarget_def Let_def split: sum.splits prod.splits)

lemma recv_blocking_retarget:
  "recv_blocking K c (msg\<lparr>msg_iov := xs, msg_iovlen := k\<rparr>) iv ivs2 u len w
     = retarget ivs2 k (recv_blocking K c msg iv ivs u len w)"
proof (cases w)
  case None
  then show ?thesis by (simp add: recv_blocking_def retarget_def Let_def)
next
  case (Some wt)
  then show ?thesis
    by (simp add: recv_blocking_def Let_def recv_out_retarget [where ivs = ivs]
        split: prod.splits del: if_split cong: if_cong)
qed

lemma recvmsg_retarget:
  assumes "msg_iov msg = iv # ivs"
  shows "rpmsg_socket_recvmsg K ty conn (msg\<lparr>msg_iov := iv # ivs2, msg_iovlen := k\<rparr>)
           dontwait cenv junk w
         = retarget ivs2 k (rpmsg_socket_recvmsg K ty conn msg dontwait cenv junk w)"
proof -
  have e: "\<And>r c. retarget ivs2 k (r, c, msg, [])
                 = (r, c, msg\<lparr>msg_iov := iv # ivs2, msg_iovlen := k\<rparr>, [])"
    using assms by (simp add: retarget_def)
  show ?thesis
    using assms
    by (simp add: rpmsg_socket_recvmsg_def Let_def e
        recv_out_retarget [where ivs = ivs] recv_blocking_retarget [where ivs = ivs]
        split: prod.splits option.splits sum.splits del: if_split cong: if_cong)
qed


text \<open>
  C9. recvmsg takes its destination and length from \<^verbatim>\<open>msg_iov[0]\<close> alone: the
  header returned has the same later iovecs and the same \<^verbatim>\<open>msg_iovlen\<close>; the
  first buffer is unchanged beyond its first \<open>iov_len\<close> bytes; a byte count
  returned is at most \<open>iov_len\<close>; and the call behaves the same whatever the
  later iovecs and \<^verbatim>\<open>msg_iovlen\<close> are.
\<close>

theorem recvmsg_first_iovec_only:
  assumes "msg_iov msg = iv # ivs"
    "rpmsg_socket_recvmsg K ty conn msg dontwait cenv junk w = (r, c', msg', tx)"
  shows "(\<exists>b. msg_iov msg' = iv\<lparr>iov_base := b\<rparr> # ivs
             \<and> drop (unat (iov_len iv)) b = drop (unat (iov_len iv)) (iov_base iv))
       \<and> msg_iovlen msg' = msg_iovlen msg
       \<and> (\<forall>n. r = Some (Inr n) \<longrightarrow> n \<le> unat (iov_len iv))
       \<and> rpmsg_socket_recvmsg K ty conn (msg\<lparr>msg_iov := iv # ivs2, msg_iovlen := k\<rparr>)
             dontwait cenv junk w
           = (r, c', msg'\<lparr>msg_iov := take 1 (msg_iov msg') @ ivs2, msg_iovlen := k\<rparr>, tx)"
proof -
  have t: "recv_traced K conn msg iv ivs (r, c', msg', tx)"
    using recvmsg_traced [OF assms(1)] assms(2) by metis
  have same: "iv\<lparr>iov_base := iov_base iv\<rparr> = iv" by simp
  have a: "(\<exists>b. msg_iov msg' = iv\<lparr>iov_base := b\<rparr> # ivs
             \<and> drop (unat (iov_len iv)) b = drop (unat (iov_len iv)) (iov_base iv))
       \<and> msg_iovlen msg' = msg_iovlen msg
       \<and> (\<forall>n. r = Some (Inr n) \<longrightarrow> n \<le> unat (iov_len iv))"
    using t unfolding recv_traced_def
  proof (elim disjE exE conjE)
    fix c assume "(r, c', msg', tx) = (None, c, msg, [])"
    with assms(1) same show ?thesis by (metis Pair_inject option.distinct(1))
  next
    fix e c assume "(r, c', msg', tx) = (Some (Inl e), c, msg, [])"
    with assms(1) same show ?thesis
      by (metis Pair_inject option.inject sum.distinct(1))
  next
    fix c b assume "(r, c', msg', tx) = (None, c, msg\<lparr>msg_iov := iv\<lparr>iov_base := b\<rparr> # ivs\<rparr>, [])"
      "drop (unat (iov_len iv)) b = drop (unat (iov_len iv)) (iov_base iv)"
    then show ?thesis by auto
  next
    fix cpre b ret
    assume o: "(r, c', msg', tx) = recv_out K cpre msg iv ivs b ret"
      and d: "drop (unat (iov_len iv)) b = drop (unat (iov_len iv)) (iov_base iv)"
      and n: "case ret of Inl e \<Rightarrow> True | Inr n \<Rightarrow> n \<le> unat (iov_len iv)"
    from recv_out_shape [OF o [symmetric]] d n show ?thesis by auto
  qed
  have "rpmsg_socket_recvmsg K ty conn (msg\<lparr>msg_iov := iv # ivs2, msg_iovlen := k\<rparr>)
             dontwait cenv junk w
           = (r, c', msg'\<lparr>msg_iov := take 1 (msg_iov msg') @ ivs2, msg_iovlen := k\<rparr>, tx)"
    using recvmsg_retarget [OF assms(1)] assms(2)
    by (simp add: retarget_def)
  with a show ?thesis by blast
qed

lemma conn_rx_recv:
  "rpmsg_socket_recvmsg K0 SOCK_STREAM conn_rx msg2 False cenv0 0 None
     = (Some (Inr 6),
        conn_rx\<lparr>recvbuf := \<lparr>cb_size = 8, cb_bytes = []\<rparr>, recvpos := 6, lastpos := 6\<rparr>,
        msg2\<lparr>msg_iov := [\<lparr>iov_base = [1, 2, 3, 4, 5, 6, 0, 0], iov_len = 6\<rparr>,
                           \<lparr>iov_base = [9, 9, 9, 9], iov_len = 4\<rparr>]\<rparr>,
        [DATA 6 0 []])"
  by (simp add: conn_rx_def msg2_def model_defs)

lemma conn_rx_dead_recv:
  "rpmsg_socket_recvmsg K0 SOCK_STREAM conn_rx_dead msg2 False cenv0 0 None
     = (Some (Inr 6),
        conn_rx_dead\<lparr>recvbuf := \<lparr>cb_size = 8, cb_bytes = []\<rparr>, recvpos := 6\<rparr>,
        msg2\<lparr>msg_iov := [\<lparr>iov_base = [1, 2, 3, 4, 5, 6, 0, 0], iov_len = 6\<rparr>,
                           \<lparr>iov_base = [9, 9, 9, 9], iov_len = 4\<rparr>]\<rparr>,
        [])"
  by (simp add: conn_rx_dead_def conn_rx_def msg2_def model_defs)

theorem recvmsg_first_iovec_only_witness:
  "rpmsg_socket_recvmsg K0 SOCK_STREAM conn_rx
       (msg2\<lparr>msg_iov := \<lparr>iov_base = [0, 0, 0, 0, 0, 0, 0, 0], iov_len = 6\<rparr> # [], msg_iovlen := 7\<rparr>)
       False cenv0 0 None
     = (Some (Inr 6),
        conn_rx\<lparr>recvbuf := \<lparr>cb_size = 8, cb_bytes = []\<rparr>, recvpos := 6, lastpos := 6\<rparr>,
        msg2\<lparr>msg_iov := [\<lparr>iov_base = [1, 2, 3, 4, 5, 6, 0, 0], iov_len = 6\<rparr>], msg_iovlen := 7\<rparr>,
        [DATA 6 0 []])"
proof -
  have m: "msg_iov msg2 = \<lparr>iov_base = [0, 0, 0, 0, 0, 0, 0, 0], iov_len = 6\<rparr>
                           # [\<lparr>iov_base = [9, 9, 9, 9], iov_len = 4\<rparr>]"
    by (simp add: msg2_def)
  show ?thesis
    using recvmsg_first_iovec_only [OF m conn_rx_recv, where ?ivs2.0 = "[]" and k = 7] by simp
qed


text \<open>
  C2 (as amended). After a recvmsg call that delivers at least one byte, the ack
  helper sends one zero-length DATA frame carrying \<open>pos = recvpos\<close> and sets
  \<open>lastpos\<close> to \<open>recvpos\<close> exactly when the endpoint is alive (it has its
  device and is not unbound) and \<open>recvpos - lastpos\<close> exceeds half the capacity
  of the local receive buffer, the window advertised to the peer in SYNC;
  otherwise no frame is sent and \<open>lastpos\<close> is unchanged.
\<close>

theorem recvmsg_ack_when_alive:
  assumes "msg_iov msg = iv # ivs"
    "rpmsg_socket_recvmsg K ty conn msg dontwait cenv junk w = (Some (Inr n), c', msg', tx)"
    "0 < n"
  shows "tx = (if \<not> ept_gone c' \<and> circbuf_size (recvbuf c') div 2 < unat (recvpos c' - lastpos conn)
               then [DATA (recvpos c') 0 []] else [])
       \<and> lastpos c' = (if \<not> ept_gone c' \<and> circbuf_size (recvbuf c') div 2 < unat (recvpos c' - lastpos conn)
               then recvpos c' else lastpos conn)"
proof -
  have t: "recv_traced K conn msg iv ivs (Some (Inr n), c', msg', tx)"
    using recvmsg_traced [OF assms(1)] assms(2) by metis
  then obtain cpre b ret where o: "(Some (Inr n), c', msg', tx) = recv_out K cpre msg iv ivs b ret"
    and l: "lastpos cpre = lastpos conn"
    unfolding recv_traced_def by auto
  from recv_out_shape [OF o [symmetric]] have "ret = Inr n" by simp
  with o have "recv_out K cpre msg iv ivs b (Inr n) = (Some (Inr n), c', msg', tx)" by simp
  from recv_out_ack [OF this assms(3)] l show ?thesis by simp
qed

theorem recvmsg_ack_when_alive_witness:
  "snd (snd (snd (rpmsg_socket_recvmsg K0 SOCK_STREAM conn_rx msg2 False cenv0 0 None)))
     = [DATA 6 0 []]
   \<and> lastpos (fst (snd (rpmsg_socket_recvmsg K0 SOCK_STREAM conn_rx msg2 False cenv0 0 None))) = 6"
proof -
  have m: "msg_iov msg2 = \<lparr>iov_base = [0, 0, 0, 0, 0, 0, 0, 0], iov_len = 6\<rparr>
                           # [\<lparr>iov_base = [9, 9, 9, 9], iov_len = 4\<rparr>]"
    by (simp add: msg2_def)
  have p: "(0::nat) < 6" by simp
  show ?thesis
    unfolding conn_rx_recv
    using recvmsg_ack_when_alive [OF m conn_rx_recv p] by simp
qed

text \<open>
  Without the condition on the endpoint C2 fails once the peer has gone: six bytes are delivered from
  a buffer of capacity 8 with \<open>lastpos = 0\<close>, so \<open>recvpos - lastpos = 6 > 4\<close>,
  but the helper returns before its test, sends nothing and leaves \<open>lastpos\<close>.
\<close>

theorem recvmsg_ack_counterexample:
  "fst (rpmsg_socket_recvmsg K0 SOCK_STREAM conn_rx_dead msg2 False cenv0 0 None) = Some (Inr 6)
   \<and> snd (snd (snd (rpmsg_socket_recvmsg K0 SOCK_STREAM conn_rx_dead msg2 False cenv0 0 None))) = []
   \<and> unat (recvpos (fst (snd (rpmsg_socket_recvmsg K0 SOCK_STREAM conn_rx_dead msg2 False cenv0 0 None)))
           - lastpos conn_rx_dead) = 6
   \<and> circbuf_size (recvbuf conn_rx_dead) div 2 = 4
   \<and> lastpos (fst (snd (rpmsg_socket_recvmsg K0 SOCK_STREAM conn_rx_dead msg2 False cenv0 0 None))) = 0"
  unfolding conn_rx_dead_recv
  by (simp add: conn_rx_dead_def conn_rx_def model_defs)

subsubsection \<open>Datagram reads\<close>

text \<open>The length prefix read back is the length written.\<close>

lemma byte_split:
  fixes w :: u32
  shows "push_bit 8 (drop_bit 8 w) + ucast (ucast w :: byte) = w"
proof -
  have "ucast (ucast w :: byte) = take_bit 8 w"
    by (rule bit_word_eqI) (auto simp add: bit_simps)
  then show ?thesis
    using bits_ident [of 8 w] by simp
qed

lemma drop_bit_32: "drop_bit 32 (w::u32) = 0"
  by (rule bit_word_eqI) (auto simp add: bit_simps dest: bit_imp_le_length)

lemma le32_le32_bytes: "le32 (le32_bytes w) = w"
proof -
  have a: "ucast (ucast (drop_bit 24 w) :: byte) = drop_bit 24 w"
    using byte_split [of "drop_bit 24 w"] by (simp add: drop_bit_32)
  have b: "push_bit 8 (drop_bit 24 w) + ucast (ucast (drop_bit 16 w) :: byte) = drop_bit 16 w"
    using byte_split [of "drop_bit 16 w"] by simp
  have c: "push_bit 8 (drop_bit 16 w) + ucast (ucast (drop_bit 8 w) :: byte) = drop_bit 8 w"
    using byte_split [of "drop_bit 8 w"] by simp
  have "le32 (le32_bytes w)
      = push_bit 8 (push_bit 8 (push_bit 8 (ucast (ucast (drop_bit 24 w) :: byte))
          + ucast (ucast (drop_bit 16 w) :: byte)) + ucast (ucast (drop_bit 8 w) :: byte))
        + ucast (ucast w :: byte)"
    by (simp add: le32_def le32_bytes_def)
  also have "\<dots> = w"
    by (simp only: a b c byte_split)
  finally show ?thesis .
qed

lemma length_le32_bytes [simp]: "length (le32_bytes w) = 4"
  by (simp add: le32_bytes_def)

text \<open>
  With a user buffer of at least one byte, a datagram of at least one byte is
  delivered as expected: a prefix of \<open>min dglen len\<close> bytes is copied,
  the rest is discarded and \<open>recvpos\<close> advances by \<open>dglen + 4\<close>.
\<close>

lemma recv_buffered_dgram:
  assumes "cb_bytes (recvbuf conn) = le32_bytes dglen @ payload @ rest"
    "length payload = unat dglen" "0 < dglen" "0 < len"
  shows "recv_buffered SOCK_DGRAM conn ubuf len junk
         = (min (unat dglen) (unat len),
            conn\<lparr>recvbuf := (recvbuf conn)\<lparr>cb_bytes := rest\<rparr>,
                 recvpos := recvpos conn + (dglen + 4)\<rparr>,
            memcpy ubuf (take (min (unat dglen) (unat len)) payload))"
proof -
  define k where "k = min (unat dglen) (unat len)"
  define b1 where "b1 = (recvbuf conn)\<lparr>cb_bytes := payload @ rest\<rparr>"
  have r1: "circbuf_read (recvbuf conn) 4 = (le32_bytes dglen, b1)"
    using assms(1) by (simp add: circbuf_read_def b1_def)
  have d: "read_u32 junk (le32_bytes dglen) = dglen"
    by (simp add: read_u32_def le32_le32_bytes)
  have m: "unat (min dglen len) = k"
    by (simp add: k_def min_def word_le_nat_alt)
  have kp: "0 < k" "k \<le> length payload"
    using assms(2,3,4) by (simp_all add: k_def word_less_nat_alt)
  have r2: "circbuf_read b1 k = (take k payload, b1\<lparr>cb_bytes := drop k payload @ rest\<rparr>)"
    using kp by (simp add: circbuf_read_def b1_def)
  have lt: "length (take k payload) = k" using kp by simp
  have sk: "(if 0 < k \<and> k < unat dglen
             then circbuf_skip (b1\<lparr>cb_bytes := drop k payload @ rest\<rparr>) (unat dglen - k)
             else b1\<lparr>cb_bytes := drop k payload @ rest\<rparr>)
            = (recvbuf conn)\<lparr>cb_bytes := rest\<rparr>"
  proof (cases "k < unat dglen")
    case True
    then show ?thesis using kp assms(2) by (simp add: circbuf_skip_def b1_def)
  next
    case False
    with kp assms(2) have "k = length payload" by simp
    with False show ?thesis by (simp add: b1_def)
  qed
  have "recv_buffered SOCK_DGRAM conn ubuf len junk
      = (k, conn\<lparr>recvbuf := (if 0 < k \<and> k < unat dglen
             then circbuf_skip (b1\<lparr>cb_bytes := drop k payload @ rest\<rparr>) (unat dglen - k)
             else b1\<lparr>cb_bytes := drop k payload @ rest\<rparr>),
                 recvpos := recvpos conn + (dglen + 4)\<rparr>,
         memcpy ubuf (take k payload))"
    unfolding recv_buffered_def
    by (simp only: r1 r2 d m lt Let_def prod.case length_le32_bytes sock_type.distinct
          if_True if_False zero_less_numeral not_False_eq_True)
  then have "recv_buffered SOCK_DGRAM conn ubuf len junk
      = (k, conn\<lparr>recvbuf := (recvbuf conn)\<lparr>cb_bytes := rest\<rparr>,
                 recvpos := recvpos conn + (dglen + 4)\<rparr>,
         memcpy ubuf (take k payload))"
    by (simp only: sk)
  then show ?thesis by (simp only: k_def)
qed

text \<open>The datagram \<open>hello\<close> read into a buffer of three bytes.\<close>

lemma recvmsg_dgram_short_buffer:
  "rpmsg_socket_recvmsg K0 SOCK_DGRAM conn_dg msg_three False cenv0 0 None
     = (Some (Inr 3),
        conn_dg\<lparr>recvbuf := \<lparr>cb_size = 64, cb_bytes = []\<rparr>, recvpos := 9, lastpos := 0\<rparr>,
        msg_three\<lparr>msg_iov := [\<lparr>iov_base = [104, 101, 108], iov_len = 3\<rparr>]\<rparr>, [])"
  by (simp add: conn_dg_def msg_three_def model_defs read_u32_def le32_def le32_bytes_def)

text \<open>
  C3 fails for a user buffer of length zero. The buffer holds the datagram
  \<open>hello\<close> (prefix 5, then five bytes). recvmsg reads the prefix, reads
  \<open>min 5 0 = 0\<close> bytes, and since that read returned 0 the guard \<^verbatim>\<open>ret > 0\<close>
  skips the discard: the five payload bytes stay in the buffer, where the next
  call will take them for a length prefix, while \<open>recvpos\<close> has advanced by 9.
  The call then returns \<open>EAGAIN\<close>.
\<close>

theorem recvmsg_dgram_zero_length_keeps_payload:
  "rpmsg_socket_recvmsg K0 SOCK_DGRAM conn_dg msg_zero False cenv0 0 None
     = (Some (Inl EAGAIN),
        conn_dg\<lparr>recvbuf := \<lparr>cb_size = 64, cb_bytes = [104, 101, 108, 108, 111]\<rparr>, recvpos := 9\<rparr>,
        msg_zero, [])"
  by (simp add: conn_dg_def msg_zero_def model_defs read_u32_def le32_def le32_bytes_def)

subsection \<open>sendmsg\<close>

lemma get_iovlen_unat:
  "unat (rpmsg_socket_get_iovlen buf iovcnt) = iov_total buf iovcnt mod 2 ^ 32"
proof (induction buf iovcnt rule: rpmsg_socket_get_iovlen.induct)
  case (1 buf)
  show ?case by (simp add: iov_total_def)
next
  case (2 n)
  show ?case by (simp add: iov_total_def)
next
  case (3 v vs n)
  have "unat (iov_len v + rpmsg_socket_get_iovlen vs n)
          = (unat (iov_len v) + unat (rpmsg_socket_get_iovlen vs n)) mod 2 ^ 32"
    by (simp add: unat_word_ariths)
  also have "\<dots> = (unat (iov_len v) + iov_total vs n) mod 2 ^ 32"
    using 3 by (simp add: mod_add_right_eq)
  finally show ?case by (simp add: iov_total_def)
qed

lemma send_single_total_unat:
  assumes "iov_total buf iovcnt + 16 < 2 ^ 32"
  shows "unat (rpmsg_socket_get_iovlen buf iovcnt + sizeof_msg + 4) = iov_total buf iovcnt + 16"
proof -
  have l: "unat (rpmsg_socket_get_iovlen buf iovcnt) = iov_total buf iovcnt"
    using assms by (simp add: get_iovlen_unat)
  have "unat (rpmsg_socket_get_iovlen buf iovcnt + sizeof_msg + 4)
      = unat (rpmsg_socket_get_iovlen buf iovcnt + 16)"
    by (simp add: sizeof_msg_def add.commute)
  moreover have "unat (rpmsg_socket_get_iovlen buf iovcnt + 16)
      = unat (rpmsg_socket_get_iovlen buf iovcnt) + unat (16::u32)"
    using assms l by (subst unat_add_lem [THEN iffD1]) simp_all
  ultimately show ?thesis using l by simp
qed

lemma wait_errno_not_EFBIG: "wait_errno r \<noteq> Some EFBIG"
  by (cases r) simp_all

lemma send_single_wait_not_EFBIG:
  "send_single_wait conn tot nonblock ws = Inl (Some e, c) \<Longrightarrow> e \<noteq> EFBIG"
proof (induction ws arbitrary: conn)
  case Nil
  then show ?case by (auto split: if_splits)
next
  case (Cons w ws)
  obtain c1 u r where ws: "wait_sendsem conn [] w = (c1, u, r)" by (cases "wait_sendsem conn [] w")
  have re: "r \<noteq> Some EFBIG"
    using ws by (cases w; cases "apply_events conn [] (case w of Wait evs r \<Rightarrow> evs)")
      (auto simp add: wait_sendsem_def wait_errno_not_EFBIG split: prod.splits)
  show ?case
  proof (cases "rpmsg_socket_get_space conn \<ge> tot - sizeof_msg \<or> nonblock \<or> ept_gone c1 \<or> r \<noteq> None")
    case True
    with Cons.prems ws re show ?thesis by (auto split: if_splits option.splits)
  next
    case False
    with Cons.prems ws have "send_single_wait c1 tot nonblock ws = Inl (Some e, c)" by simp
    then show ?thesis by (rule Cons.IH)
  qed
qed

lemma send_single_EFBIG_iff:
  "(fst (rpmsg_socket_send_single conn buf iovcnt nonblock ws tx) = Some (Inl EFBIG))
     = (rpmsg_socket_get_iovlen buf iovcnt + sizeof_msg + 4 > sendsize conn)"
proof (cases "rpmsg_socket_get_iovlen buf iovcnt + sizeof_msg + 4 > sendsize conn")
  case True
  then show ?thesis by (simp add: rpmsg_socket_send_single_def Let_def)
next
  case False
  let ?tot = "rpmsg_socket_get_iovlen buf iovcnt + sizeof_msg + 4"
  have "fst (rpmsg_socket_send_single conn buf iovcnt nonblock ws tx) \<noteq> Some (Inl EFBIG)"
  proof (cases "send_single_wait conn ?tot nonblock ws")
    case (Inl a)
    obtain eo c where a: "a = (eo, c)" by (cases a)
    show ?thesis
    proof (cases eo)
      case None
      with Inl a False show ?thesis by (simp add: rpmsg_socket_send_single_def Let_def)
    next
      case (Some e)
      with Inl a send_single_wait_not_EFBIG [of conn ?tot nonblock ws e c] have "e \<noteq> EFBIG" by simp
      with Inl a Some False show ?thesis by (simp add: rpmsg_socket_send_single_def Let_def)
    qed
  next
    case (Inr c)
    with False show ?thesis
      by (auto simp add: rpmsg_socket_send_single_def Let_def
          split: option.splits txacq.splits prod.splits)
  qed
  with False show ?thesis by simp
qed

text \<open>
  C4 (as amended). On a connected datagram socket whose endpoint is alive (it
  has its device and is not unbound), with a total iovec length that does not
  wrap the 32-bit sum, sendmsg fails with \<open>EFBIG\<close> exactly when that length
  plus the 12-byte DATA header plus the 4-byte length prefix exceeds the peer's
  window \<open>sendsize\<close>; in that case nothing is sent and the connection is
  unchanged. When the endpoint is gone or unbound, sendmsg fails with
  \<open>ECONNRESET\<close> whatever the length, and again nothing is sent and the
  connection is unchanged.
\<close>

theorem sendmsg_dgram_efbig:
  assumes "s_connected conn"
  shows "(\<not> ept_gone conn \<and> iov_total (msg_iov msg) (msg_iovlen msg) + 16 < 2 ^ 32 \<longrightarrow>
            ((fst (rpmsg_socket_sendmsg K SOCK_DGRAM conn msg dontwait g cenv ws txs)
                = Some (Inl EFBIG))
               = (unat (sendsize conn) < iov_total (msg_iov msg) (msg_iovlen msg) + 16))
          \<and> (unat (sendsize conn) < iov_total (msg_iov msg) (msg_iovlen msg) + 16
                \<longrightarrow> rpmsg_socket_sendmsg K SOCK_DGRAM conn msg dontwait g cenv ws txs
                      = (Some (Inl EFBIG), conn, [], g)))
       \<and> (ept_gone conn \<longrightarrow>
            rpmsg_socket_sendmsg K SOCK_DGRAM conn msg dontwait g cenv ws txs
              = (Some (Inl ECONNRESET), conn, [], g))"
proof -
  have dead: "rpmsg_socket_sendmsg K SOCK_DGRAM conn msg dontwait g cenv ws txs
                = (Some (Inl ECONNRESET), conn, [], g)" if "ept_gone conn"
    using assms that by (simp add: rpmsg_socket_sendmsg_def send_dispatch_def)
  have alive: "((fst (rpmsg_socket_sendmsg K SOCK_DGRAM conn msg dontwait g cenv ws txs)
            = Some (Inl EFBIG))
           = (unat (sendsize conn) < iov_total (msg_iov msg) (msg_iovlen msg) + 16))
        \<and> (unat (sendsize conn) < iov_total (msg_iov msg) (msg_iovlen msg) + 16
              \<longrightarrow> rpmsg_socket_sendmsg K SOCK_DGRAM conn msg dontwait g cenv ws txs
                    = (Some (Inl EFBIG), conn, [], g))"
    if live: "\<not> ept_gone conn \<and> iov_total (msg_iov msg) (msg_iovlen msg) + 16 < 2 ^ 32"
  proof -
  let ?tx = "case txs of [] \<Rightarrow> None | t # ts \<Rightarrow> Some t"
  let ?nb = "s_nonblock conn \<or> dontwait"
  let ?S = "rpmsg_socket_send_single conn (msg_iov msg) (msg_iovlen msg) ?nb ws ?tx"
  have u: "rpmsg_socket_sendmsg K SOCK_DGRAM conn msg dontwait g cenv ws txs
             = (fst ?S, fst (snd ?S), snd (snd ?S), g)"
    using assms live
    by (simp add: rpmsg_socket_sendmsg_def send_dispatch_def Let_def split: prod.splits)
  have wr: "iov_total (msg_iov msg) (msg_iovlen msg) + 16 < 2 ^ 32"
    using live by simp
  have t: "(sendsize conn < rpmsg_socket_get_iovlen (msg_iov msg) (msg_iovlen msg) + sizeof_msg + 4)
        = (unat (sendsize conn) < iov_total (msg_iov msg) (msg_iovlen msg) + 16)"
    using send_single_total_unat [OF wr] by (simp add: word_less_nat_alt)
  have big: "sendsize conn < rpmsg_socket_get_iovlen (msg_iov msg) (msg_iovlen msg) + sizeof_msg + 4
      \<Longrightarrow> ?S = (Some (Inl EFBIG), conn, [])"
    by (simp add: rpmsg_socket_send_single_def Let_def)
  show ?thesis
    using send_single_EFBIG_iff [of conn "msg_iov msg" "msg_iovlen msg" ?nb ws ?tx] t big
    by (auto simp add: u)
  qed
  show ?thesis
    using dead alive by blast
qed

lemmas send_defs =
  rpmsg_socket_sendmsg_def send_dispatch_def rpmsg_socket_send_single_def
  send_single_commit_def send_single_total_def sizeof_msg_def iov_bytes_def iov_total_def
  apply_events_def le32_bytes_def

text \<open>A datagram of three bytes that fits is sent with its length prefix.\<close>

lemma conn_dg_send_small:
  "rpmsg_socket_sendmsg K0 SOCK_DGRAM conn_dg msg_three False 0 cenv0 [] [TxAcq [] (Some 496) 19]
     = (Some (Inr 3), conn_dg\<lparr>sendpos := 7\<rparr>, [DATA 0 3 [3, 0, 0, 0, 0, 0, 0]], 0)"
  by (simp add: conn_dg_def msg_three_def send_defs model_defs)

theorem sendmsg_dgram_efbig_witness:
  "rpmsg_socket_sendmsg K0 SOCK_DGRAM conn_dg msg_big False 0 cenv0 [] []
     = (Some (Inl EFBIG), conn_dg, [], 0)
   \<and> fst (rpmsg_socket_sendmsg K0 SOCK_DGRAM conn_dg msg_three False 0 cenv0 []
            [TxAcq [] (Some 496) 19]) \<noteq> Some (Inl EFBIG)
   \<and> rpmsg_socket_sendmsg K0 SOCK_DGRAM conn_eof msg_three False 0 cenv0 []
            [TxAcq [] (Some 496) 19] = (Some (Inl ECONNRESET), conn_eof, [], 0)"
proof -
  have c: "s_connected conn_dg" "\<not> ept_gone conn_dg"
    by (simp_all add: conn_dg_def model_defs)
  have d: "s_connected conn_eof" "ept_gone conn_eof"
    by (simp_all add: conn_eof_def model_defs)
  have b: "iov_total (msg_iov msg_big) (msg_iovlen msg_big) + 16 < 2 ^ 32"
    by (simp add: msg_big_def iov_total_def)
  have t: "iov_total (msg_iov msg_three) (msg_iovlen msg_three) + 16 < 2 ^ 32"
    by (simp add: msg_three_def iov_total_def)
  have s: "unat (sendsize conn_dg) = 1024"
      "iov_total (msg_iov msg_big) (msg_iovlen msg_big) = 8192"
      "iov_total (msg_iov msg_three) (msg_iovlen msg_three) = 3"
    by (simp_all add: conn_dg_def msg_big_def msg_three_def iov_total_def model_defs)
  show ?thesis
    using sendmsg_dgram_efbig [OF c(1), of msg_big K0 False 0 cenv0 "[]" "[]"]
          sendmsg_dgram_efbig [OF c(1), of msg_three K0 False 0 cenv0 "[]"
            "[TxAcq [] (Some 496) 19]"]
          sendmsg_dgram_efbig [OF d(1), of msg_three K0 False 0 cenv0 "[]"
            "[TxAcq [] (Some 496) 19]"]
          c(2) d(2) b t
    by (simp add: s)
qed

text \<open>
  Without the condition on the endpoint C4 fails once the endpoint is gone: a connected datagram
  socket with a window of 1024 that is asked to send 8192 bytes gets
  \<open>ECONNRESET\<close>, because the test for a dead endpoint comes before the
  datagram path and its size test.
\<close>

theorem sendmsg_dgram_efbig_counterexample:
  "s_connected conn_eof
   \<and> sendsize conn_eof = 1024
   \<and> iov_total (msg_iov msg_big) (msg_iovlen msg_big) = 8192
   \<and> rpmsg_socket_sendmsg K0 SOCK_DGRAM conn_eof msg_big False 0 cenv0 [] []
       = (Some (Inl ECONNRESET), conn_eof, [], 0)"
  by (simp add: conn_eof_def msg_big_def send_defs model_defs)

subsection \<open>The accept queue\<close>

lemmas srv_defs =
  srv_def rpmsg_socket_listen_def rpmsg_socket_ns_bind_def rpmsg_socket_ns_bound_def
  rpmsg_socket_alloc_def rpmsg_socket_post_def circbuf_resize_def circbuf_size_def
  rpmsg_socket_close_def rpmsg_socket_destroy_ept_def rpmsg_socket_accept_def
  accept_child_def rpmsg_socket_getaddr_def sem_take_def benv0_def child0_def K0_def c_trunc_def

text \<open>The walk rejects exactly when the chain is non-empty and as long as the backlog.\<close>

lemma ns_bind_walk_iff:
  "ns_bind_walk cnt bl q = (q \<noteq> [] \<and> bl \<le> cnt + int (length q))"
  by (induction q arbitrary: cnt) auto

text \<open>
  C6. For a listener (backlog above zero) whose accept queue is within its
  backlog, the name-service bind appends the child exactly when every step of
  building it succeeded and the queue, one longer, still fits the backlog;
  otherwise the queue and the server are unchanged, and a child that was built
  is rejected with its endpoint torn down. The queue stays within the backlog.
\<close>

theorem ns_bind_respects_backlog:
  assumes "0 < backlog server" "int (length queue) \<le> backlog server"
    "rpmsg_socket_ns_bind K server queue env = (s', q', tx, out)"
  shows "(out = Appended) = (bind_ok env \<and> int (length queue) + 1 \<le> backlog server)
       \<and> (if out = Appended then \<exists>child. q' = queue @ [child] else q' = queue \<and> s' = server)
       \<and> (if bind_ok env \<and> out \<noteq> Appended
           then \<exists>child. out = Rejected child \<and> ept_rdev child = None else True)
       \<and> backlog s' = backlog server
       \<and> int (length q') \<le> backlog s'"
  using assms
  by (cases env)
     (auto simp add: rpmsg_socket_ns_bind_def ns_bind_walk_iff bind_ok_def Let_def
       split: if_splits)

lemma srv1_bind_first:
  "rpmsg_socket_ns_bind K0 (srv 1) [] benv0
     = ((srv 1)\<lparr>recvsem := 1\<rparr>, [child0], [SYNC 1024 1 2 3], Appended)"
  by (simp add: srv_defs)

lemma srv1_bind_second:
  "rpmsg_socket_ns_bind K0 (srv 1) [child0] benv0
     = (srv 1, [child0], [SYNC 1024 1 2 3], Rejected (child0\<lparr>ept_rdev := None\<rparr>))"
  by (simp add: srv_defs)

theorem ns_bind_respects_backlog_witness:
  "rpmsg_socket_ns_bind K0 (srv 1) [] benv0
     = ((srv 1)\<lparr>recvsem := 1\<rparr>, [child0], [SYNC 1024 1 2 3], Appended)
   \<and> rpmsg_socket_ns_bind K0 (srv 1) [child0] benv0
     = (srv 1, [child0], [SYNC 1024 1 2 3], Rejected (child0\<lparr>ept_rdev := None\<rparr>))
   \<and> int (length [child0]) \<le> backlog (srv 1)"
proof -
  have b: "0 < backlog (srv 1)" "int (length ([]::rpmsg_socket_conn_s list)) \<le> backlog (srv 1)"
      "int (length [child0]) \<le> backlog (srv 1)"
    by (simp_all add: srv_defs)
  show ?thesis
    using ns_bind_respects_backlog [OF b(1) b(2) srv1_bind_first]
          ns_bind_respects_backlog [OF b(1) b(3) srv1_bind_second]
          srv1_bind_first srv1_bind_second b(3)
    by simp
qed

text \<open>
  The parts of C7 that hold: accept returns \<open>ECONNRESET\<close> when the tag is -1
  on entry and when it is -1 after a wake-up; on a socket that is not listening,
  and whose tag is not -1, it returns \<open>EINVAL\<close>; and closing the last
  reference of a connection that has an endpoint and a non-zero tag sets the tag
  to -1 and posts the receive semaphore.
\<close>

lemma accept_listen_closed:
  "backlog server = - 1 \<Longrightarrow>
   rpmsg_socket_accept K server queue addr addrlen cw ws
     = (Some (Inl ECONNRESET), server, queue, None, None)"
  by (simp add: rpmsg_socket_accept_def)

lemma accept_not_listening:
  "backlog server \<noteq> - 1 \<Longrightarrow> \<not> s_listening server \<Longrightarrow>
   rpmsg_socket_accept K server queue addr addrlen cw ws
     = (Some (Inl EINVAL), server, queue, None, None)"
  by (simp add: rpmsg_socket_accept_def)

lemma accept_wake_closed:
  assumes "\<not> s_nonblock server"
    "foldl (apply_srv_event K) (server, []) evs = (s1, q1)" "backlog s1 = - 1"
  shows "accept_loop K server [] addr addrlen cw (SrvWait evs r # ws)
     = (Some (Inl ECONNRESET), s1\<lparr>recvsem := sem_take (recvsem s1) r\<rparr>, q1, None, None)"
  using assms by simp

lemma close_with_endpoint:
  assumes "unat (crefs conn) \<le> 1" "ept_rdev conn = Some d" "backlog conn \<noteq> 0"
  shows "backlog (fst (rpmsg_socket_close conn)) = - 1
       \<and> recvsem (fst (rpmsg_socket_close conn)) = rpmsg_socket_post (recvsem conn)"
  using assms by (simp add: rpmsg_socket_close_def rpmsg_socket_destroy_ept_def)

lemma close_without_endpoint:
  assumes "unat (crefs conn) \<le> 1" "ept_rdev conn = None"
  shows "fst (rpmsg_socket_close conn) = conn"
  using assms by (simp add: rpmsg_socket_close_def rpmsg_socket_destroy_ept_def)

text \<open>
  C7 fails where it says that closing the listening socket sets the tag to -1
  and posts the receive semaphore. A listener never creates an endpoint of its
  own, so \<^verbatim>\<open>rpmsg_socket_destroy_ept\<close> finds \<^verbatim>\<open>conn->ept.rdev\<close> NULL and skips
  the block that does both: after the close the tag is still the backlog and
  the semaphore still 0. An accept blocked meanwhile is not woken, and when its
  wait is interrupted it returns \<open>EINTR\<close>, not \<open>ECONNRESET\<close>.
\<close>

theorem close_listener_keeps_backlog:
  "rpmsg_socket_close (srv 2) = (srv 2, Some CbNsMatchBind)
   \<and> ept_rdev (srv 2) = None
   \<and> backlog (srv 2) = 2
   \<and> recvsem (srv 2) = 0
   \<and> rpmsg_socket_accept K0 (srv 2) [] None 0 None [SrvWait [SrvClose] Interrupted]
        = (Some (Inl EINTR), srv 2, [], None, None)"
  by (simp add: srv_defs)

subsection \<open>getsockopt\<close>

text \<open>
  C10. \<open>getsockopt(SOL_SOCKET, SO_PEERCRED)\<close> copies the stored peer credentials
  out and succeeds when the caller's length equals \<open>sizeof(struct ucred)\<close>, and
  returns \<open>EINVAL\<close> for every other length, larger ones included.
\<close>

theorem getsockopt_peercred_exact:
  "rpmsg_socket_getsockopt K conn (SOL_SOCKET K) (SO_PEERCRED K) value_len =
     (if value_len = sizeof_ucred K then Inr (cred conn) else Inl EINVAL)"
  by (simp add: rpmsg_socket_getsockopt_def)

theorem getsockopt_peercred_exact_witness:
  "rpmsg_socket_getsockopt K0 conn_eof (SOL_SOCKET K0) (SO_PEERCRED K0) 12
      = Inr \<lparr>pid = 1, uid = 2, gid = 3\<rparr>
   \<and> rpmsg_socket_getsockopt K0 conn_eof (SOL_SOCKET K0) (SO_PEERCRED K0) 16 = Inl EINVAL
   \<and> rpmsg_socket_getsockopt K0 conn_eof (SOL_SOCKET K0) (SO_PEERCRED K0) 8 = Inl EINVAL"
  using getsockopt_peercred_exact [of K0 conn_eof 12]
        getsockopt_peercred_exact [of K0 conn_eof 16]
        getsockopt_peercred_exact [of K0 conn_eof 8]
  by (simp add: K0_def conn_eof_def rpmsg_socket_ns_unbind_def)

end
